theory Spec2Isabelle
  imports Main "HOL-Library.AList"
begin

section \<open>The parsed document\<close>

text \<open>
  \<^verbatim>\<open>xml_data_scrapper.py\<close> reads a UML model from an XMI file with BeautifulSoup and
  writes the instances of the class \<^verbatim>\<open>Station\<close> to a JSON file.

  A parsed element is a \<^verbatim>\<open>Tag\<close>: its local name, its attribute dictionary and its
  children in document order. Attribute names are the qualified names the parser
  stores (\<^verbatim>\<open>xmi:id\<close>, \<^verbatim>\<open>xmi:type\<close>); the dictionary is an association list read
  with \<open>map_of\<close>. The \<^verbatim>\<open>BeautifulSoup\<close> object is itself a tag, named
  \<^verbatim>\<open>[document]\<close>, whose children are the top-level nodes. String nodes (the text
  between elements) are left out of the tree: every search of the program is by
  tag name, which no string node matches.

  Python strings are modelled by their UTF-8 bytes.
\<close>

datatype tag = Tag (name: string) (attrs: "(string \<times> string) list") (contents: "tag list")

datatype error = KeyError string | FileNotFoundError string | AttributeError string

text \<open>\<^verbatim>\<open>tag[key]\<close> reads the attribute dictionary and raises \<^verbatim>\<open>KeyError\<close> on a missing key.\<close>

definition getitem :: "tag \<Rightarrow> string \<Rightarrow> error + string" where
  "getitem t key = (case map_of (attrs t) key of None \<Rightarrow> Inl (KeyError key) | Some v \<Rightarrow> Inr v)"

text \<open>\<^verbatim>\<open>tag.descendants\<close>: every element below the tag, in document order (pre-order),
  the tag itself excluded.\<close>

fun descendants :: "tag \<Rightarrow> tag list" where
  "descendants (Tag n a cs) = concat (map (\<lambda>c. c # descendants c) cs)"

text \<open>
  An attribute filter of \<^verbatim>\<open>find\<close>/\<^verbatim>\<open>find_all\<close> is a dictionary from attribute
  names to either one string or a list of strings. A string matches an attribute that
  is present with exactly that value; a list matches an attribute that is present
  with the value of one of its items.

  The repository pins no version of BeautifulSoup, and the versions differ on an
  attribute that is absent. From 4.13 on an absent attribute matches no string and
  no list. Before 4.13 the value \<^verbatim>\<open>None\<close> of an absent attribute matches every filter
  that is false as a Python value: the empty string and the empty list. The version
  is a parameter of every search, and of every function of the program that
  searches.
\<close>

datatype bs4 = Before_4_13 | From_4_13

datatype match_against = Exact string | AnyOf "string list"

fun matches_value :: "bs4 \<Rightarrow> string option \<Rightarrow> match_against \<Rightarrow> bool" where
  "matches_value From_4_13 None m = False"
| "matches_value Before_4_13 None (Exact s) = (s = [])"
| "matches_value Before_4_13 None (AnyOf ss) = (ss = [])"
| "matches_value lib (Some v) (Exact s) = (v = s)"
| "matches_value lib (Some v) (AnyOf ss) = (v \<in> set ss)"

definition matches_tag :: "bs4 \<Rightarrow> string \<Rightarrow> (string \<times> match_against) list \<Rightarrow> tag \<Rightarrow> bool" where
  "matches_tag lib nm flt t =
     (name t = nm \<and> list_all (\<lambda>(k, m). matches_value lib (map_of (attrs t) k) m) flt)"

text \<open>\<^verbatim>\<open>tag.find_all(name, attrs)\<close> walks the descendants and keeps the matching ones;
  \<^verbatim>\<open>tag.find(name, attrs)\<close> is the first result of the same search, or \<^verbatim>\<open>None\<close>.\<close>

definition find_all :: "bs4 \<Rightarrow> tag \<Rightarrow> string \<Rightarrow> (string \<times> match_against) list \<Rightarrow> tag list" where
  "find_all lib t nm flt = filter (matches_tag lib nm flt) (descendants t)"

definition find_first :: "bs4 \<Rightarrow> tag \<Rightarrow> string \<Rightarrow> (string \<times> match_against) list \<Rightarrow> tag option" where
  "find_first lib t nm flt = (case find_all lib t nm flt of [] \<Rightarrow> None | r # _ \<Rightarrow> Some r)"

section \<open>Program state\<close>

text \<open>
  The effects of the program are file reads, one file write, lines printed to the
  console and the document object that \<^verbatim>\<open>BeautifulSoup(content, 'xml')\<close> builds. The
  state holds the file system (path to content), the console, a log of the file and
  parser operations in the order they happen, and \<open>soup\<close>, the document object the
  variable \<^verbatim>\<open>soup\<close> refers to. A call that receives \<^verbatim>\<open>soup\<close> receives a reference
  to that object, so the model reads the field of the current state.
\<close>

datatype event = OpenRead string | ParseXML | OpenWrite string

record world =
  files :: "(string \<times> string) list"
  stdout :: "string list"
  io_log :: "event list"
  soup :: tag

definition py_print :: "string \<Rightarrow> world \<Rightarrow> world" where
  "py_print line w = w\<lparr>stdout := stdout w @ [line]\<rparr>"

text \<open>\<^verbatim>\<open>with open(path, 'r', encoding='utf-8') as file: content = file.read()\<close>\<close>

definition read_file :: "string \<Rightarrow> world \<Rightarrow> (error + string) \<times> world" where
  "read_file path w =
     (case map_of (files w) path of
        None \<Rightarrow> (Inl (FileNotFoundError path), w)
      | Some content \<Rightarrow> (Inr content, w\<lparr>io_log := io_log w @ [OpenRead path]\<rparr>))"

text \<open>\<^verbatim>\<open>with open(path, 'w', encoding='utf-8') as f:\<close> followed by one write of \<open>text\<close>.\<close>

definition write_file :: "string \<Rightarrow> string \<Rightarrow> world \<Rightarrow> world" where
  "write_file path text w =
     w\<lparr>files := AList.update path text (files w), io_log := io_log w @ [OpenWrite path]\<rparr>"

text \<open>\<^verbatim>\<open>soup = BeautifulSoup(content, 'xml')\<close>: the XML parser is the library's and is a
  parameter of the model.\<close>

definition BeautifulSoup :: "(string \<Rightarrow> tag) \<Rightarrow> string \<Rightarrow> world \<Rightarrow> world" where
  "BeautifulSoup parse content w = w\<lparr>io_log := io_log w @ [ParseXML], soup := parse content\<rparr>"

section \<open>The stages\<close>

subsection \<open>\<^verbatim>\<open>get_station_id\<close>\<close>

definition station_filter :: "(string \<times> match_against) list" where
  "station_filter = [(''xmi:type'', Exact ''uml:Class''), (''name'', AnyOf [''Station''])]"

definition get_station_id ::
  "bs4 \<Rightarrow> (string \<Rightarrow> tag) \<Rightarrow> string \<Rightarrow> world \<Rightarrow> (error + (string option \<times> tag option)) \<times> world" where
  "get_station_id lib parse file_path w =
     (case read_file file_path w of
        (Inl e, w1) \<Rightarrow> (Inl e, w1)
      | (Inr content, w1) \<Rightarrow>
          (let w2 = BeautifulSoup parse content w1 in
           case find_first lib (soup w2) ''packagedElement'' station_filter of
             Some station \<Rightarrow>
               (case getitem station ''xmi:id'' of
                  Inl e \<Rightarrow> (Inl e, w2)
                | Inr station_id \<Rightarrow> (Inr (Some station_id, Some station), w2))
           | None \<Rightarrow> (Inr (None, None), w2)))"

subsection \<open>\<^verbatim>\<open>get_station_attributes\<close>\<close>

text \<open>The comprehension \<^verbatim>\<open>[attribute['xmi:id'] for attribute in attributes]\<close>.\<close>

fun attribute_ids_of :: "tag list \<Rightarrow> error + string list" where
  "attribute_ids_of [] = Inr []"
| "attribute_ids_of (attribute # attributes) =
     (case getitem attribute ''xmi:id'' of
        Inl e \<Rightarrow> Inl e
      | Inr i \<Rightarrow> (case attribute_ids_of attributes of Inl e \<Rightarrow> Inl e | Inr ids \<Rightarrow> Inr (i # ids)))"

definition get_station_attributes :: "bs4 \<Rightarrow> tag \<Rightarrow> error + string list" where
  "get_station_attributes lib station_element =
     attribute_ids_of (find_all lib station_element ''ownedAttribute'' [])"

subsection \<open>\<^verbatim>\<open>get_station_instances\<close>\<close>

definition get_station_instances :: "bs4 \<Rightarrow> tag \<Rightarrow> string \<Rightarrow> tag list" where
  "get_station_instances lib doc station_classifier_id =
     find_all lib doc ''packagedElement''
       [(''xmi:type'', Exact ''uml:InstanceSpecification''),
        (''classifier'', Exact station_classifier_id)]"

subsection \<open>\<^verbatim>\<open>print_station_details\<close>\<close>

text \<open>The dictionaries the record builder creates have fixed literal keys; they are
  records whose field names are those keys.\<close>

record attribute_entry =
  attribute_name :: string
  attribute_value :: string

record station_data =
  station_name :: string
  attributes :: "attribute_entry list"

definition Aucune_valeur :: string where
  "Aucune_valeur = ''Aucune valeur''"

text \<open>The body of \<^verbatim>\<open>for slot in slots\<close>: \<open>doc\<close> is the document the attribute is
  looked up in, \<open>sd\<close> the \<^verbatim>\<open>station_data\<close> being filled.\<close>

definition slot_body :: "bs4 \<Rightarrow> tag \<Rightarrow> tag \<Rightarrow> station_data \<Rightarrow> error + station_data" where
  "slot_body lib doc slot sd =
     (case getitem slot ''definingFeature'' of
        Inl e \<Rightarrow> Inl e
      | Inr defining_feature_id \<Rightarrow>
          (case find_first lib doc ''ownedAttribute'' [(''xmi:id'', Exact defining_feature_id)] of
             None \<Rightarrow> Inr sd
           | Some attribute \<Rightarrow>
               (case getitem attribute ''name'' of
                  Inl e \<Rightarrow> Inl e
                | Inr a_name \<Rightarrow>
                    (case (case find_first lib slot ''value'' [] of
                             Some v \<Rightarrow> getitem v ''symbol''
                           | None \<Rightarrow> Inr Aucune_valeur) of
                       Inl e \<Rightarrow> Inl e
                     | Inr a_value \<Rightarrow>
                         Inr (sd\<lparr>attributes := attributes sd @
                                [\<lparr>attribute_name = a_name,
                                  attribute_value = a_value\<rparr>]\<rparr>)))))"

fun slots_loop :: "bs4 \<Rightarrow> tag \<Rightarrow> tag list \<Rightarrow> station_data \<Rightarrow> error + station_data" where
  "slots_loop lib doc [] sd = Inr sd"
| "slots_loop lib doc (slot # slots) sd =
     (case slot_body lib doc slot sd of
        Inl e \<Rightarrow> Inl e
      | Inr sd' \<Rightarrow> slots_loop lib doc slots sd')"

text \<open>\<^verbatim>\<open>for attr in station_data['attributes']: print(f"  - {...} : {...}")\<close>\<close>

fun print_attrs :: "attribute_entry list \<Rightarrow> world \<Rightarrow> world" where
  "print_attrs [] w = w"
| "print_attrs (attr # rest) w =
     print_attrs rest
       (py_print (''  - '' @ attribute_name attr @ '' : '' @ attribute_value attr) w)"

text \<open>The loop \<^verbatim>\<open>for station_instance in station_instances\<close>, with the list
  \<^verbatim>\<open>station_details\<close> built so far. An exception leaves the lines already printed
  on the console.\<close>

fun stations_loop ::
  "bs4 \<Rightarrow> tag list \<Rightarrow> station_data list \<Rightarrow> world \<Rightarrow> (error + station_data list) \<times> world" where
  "stations_loop lib [] station_details w = (Inr station_details, w)"
| "stations_loop lib (station_instance # rest) station_details w =
     (case getitem station_instance ''name'' of
        Inl e \<Rightarrow> (Inl e, w)
      | Inr nm \<Rightarrow>
          (case slots_loop lib (soup w) (find_all lib station_instance ''slot'' [])
                  \<lparr>station_name = nm, attributes = []\<rparr> of
             Inl e \<Rightarrow> (Inl e, w)
           | Inr sd \<Rightarrow>
               stations_loop lib rest (station_details @ [sd])
                 (print_attrs (attributes sd)
                    (py_print (CHR 0x0A # ''Station: '' @ nm) w))))"

definition print_station_details ::
  "bs4 \<Rightarrow> tag list \<Rightarrow> world \<Rightarrow> (error + station_data list) \<times> world" where
  "print_station_details lib station_instances w = stations_loop lib station_instances [] w"

subsection \<open>\<^verbatim>\<open>save_station_details_to_json\<close>\<close>

text \<open>
  What \<^verbatim>\<open>json.dump\<close> receives is a list of dictionaries of strings and lists. The
  JSON values are strings, arrays and objects; an object keeps its keys in insertion
  order.
\<close>

datatype json = JString string | JArray "json list" | JObject "(string \<times> json) list"

definition entry_json :: "attribute_entry \<Rightarrow> json" where
  "entry_json e =
     JObject [(''attribute_name'', JString (attribute_name e)),
              (''attribute_value'', JString (attribute_value e))]"

definition station_json :: "station_data \<Rightarrow> json" where
  "station_json sd =
     JObject [(''station_name'', JString (station_name sd)),
              (''attributes'', JArray (map entry_json (attributes sd)))]"

definition details_json :: "station_data list \<Rightarrow> json" where
  "details_json station_details = JArray (map station_json station_details)"

text \<open>
  The string encoder with \<^verbatim>\<open>ensure_ascii=False\<close> escapes the quote, the backslash
  and the control characters below \<^verbatim>\<open>0x20\<close>; every other character is written as
  it is, so the bytes of a non-ASCII character pass through unchanged.
\<close>

definition hex_digit :: "nat \<Rightarrow> char" where
  "hex_digit n = ''0123456789abcdef'' ! (n mod 16)"

definition escape_char :: "char \<Rightarrow> string" where
  "escape_char c =
     (if c = CHR 0x22 then [CHR 0x5C, CHR 0x22]
      else if c = CHR 0x5C then [CHR 0x5C, CHR 0x5C]
      else if c = CHR 0x08 then [CHR 0x5C, CHR ''b'']
      else if c = CHR 0x0C then [CHR 0x5C, CHR ''f'']
      else if c = CHR 0x0A then [CHR 0x5C, CHR ''n'']
      else if c = CHR 0x0D then [CHR 0x5C, CHR ''r'']
      else if c = CHR 0x09 then [CHR 0x5C, CHR ''t'']
      else if (of_char c :: nat) < 0x20
        then [CHR 0x5C, CHR ''u'', CHR ''0'', CHR ''0'',
              hex_digit (of_char c div 16), hex_digit (of_char c)]
      else [c])"

definition encode_basestring :: "string \<Rightarrow> string" where
  "encode_basestring s = CHR 0x22 # concat (map escape_char s) @ [CHR 0x22]"

text \<open>With \<^verbatim>\<open>indent=4\<close> every item of a non-empty array or object starts on a line
  of its own, indented by four spaces per nesting level; items are separated by a
  comma, a key from its value by a colon and a space.\<close>

definition newline_indent :: "nat \<Rightarrow> string" where
  "newline_indent level = CHR 0x0A # replicate (4 * level) CHR '' ''"

fun iterencode :: "nat \<Rightarrow> json \<Rightarrow> string"
  and iterencode_list :: "nat \<Rightarrow> json list \<Rightarrow> string"
  and iterencode_dict :: "nat \<Rightarrow> (string \<times> json) list \<Rightarrow> string" where
  "iterencode level (JString s) = encode_basestring s"
| "iterencode level (JArray []) = ''[]''"
| "iterencode level (JArray (v # vs)) =
     ''['' @ newline_indent (Suc level) @ iterencode_list (Suc level) (v # vs)
       @ newline_indent level @ '']''"
| "iterencode level (JObject []) = ''{}''"
| "iterencode level (JObject (kv # kvs)) =
     ''{'' @ newline_indent (Suc level) @ iterencode_dict (Suc level) (kv # kvs)
       @ newline_indent level @ ''}''"
| "iterencode_list level [] = []"
| "iterencode_list level [v] = iterencode level v"
| "iterencode_list level (v # w # vs) =
     iterencode level v @ '','' @ newline_indent level @ iterencode_list level (w # vs)"
| "iterencode_dict level [] = []"
| "iterencode_dict level [(k, v)] = encode_basestring k @ '': '' @ iterencode level v"
| "iterencode_dict level ((k, v) # kv # kvs) =
     encode_basestring k @ '': '' @ iterencode level v @ '','' @ newline_indent level
       @ iterencode_dict level (kv # kvs)"

definition json_dump :: "json \<Rightarrow> string" where
  "json_dump obj = iterencode 0 obj"

definition saved_message :: string where
  "saved_message = ''D'' @ [CHR 0xC3, CHR 0xA9] @ ''tails de la station enregistr''
     @ [CHR 0xC3, CHR 0xA9] @ ''s dans ''"

definition save_station_details_to_json :: "station_data list \<Rightarrow> string \<Rightarrow> world \<Rightarrow> world" where
  "save_station_details_to_json station_details output_file w =
     py_print (saved_message @ output_file)
       (write_file output_file (json_dump (details_json station_details)) w)"

subsection \<open>Reading the file back\<close>

text \<open>
  The round trip of the serializer parses the written text again. The parse is the
  decoder of the same library, for the three kinds of values above: \<open>scanstring\<close>
  reads a string after its opening quote (a raw control character is refused, as in
  strict mode), \<open>scan_once\<close> reads one value, \<open>scan_array\<close> and \<open>scan_object\<close> read the
  items of a non-empty array and object; white space is allowed where the decoder
  allows it. An escape of four hexadecimal digits gives the UTF-8 bytes of its code
  point; an escaped surrogate, which has none, is refused. The recursion on values
  is bounded by a counter, and \<open>json_loads\<close> starts it at the length of the text,
  which is more than any text needs.
\<close>

definition whitespace :: "char \<Rightarrow> bool" where
  "whitespace c = (c = CHR '' '' \<or> c = CHR 0x09 \<or> c = CHR 0x0A \<or> c = CHR 0x0D)"

fun skip_whitespace :: "string \<Rightarrow> string" where
  "skip_whitespace [] = []"
| "skip_whitespace (c # cs) = (if whitespace c then skip_whitespace cs else c # cs)"

definition hex_value :: "char \<Rightarrow> nat option" where
  "hex_value c =
     (let n = (of_char c :: nat) in
      if 0x30 \<le> n \<and> n \<le> 0x39 then Some (n - 0x30)
      else if 0x61 \<le> n \<and> n \<le> 0x66 then Some (n - 0x61 + 10)
      else if 0x41 \<le> n \<and> n \<le> 0x46 then Some (n - 0x41 + 10)
      else None)"

definition decode_uXXXX :: "char \<Rightarrow> char \<Rightarrow> char \<Rightarrow> char \<Rightarrow> nat option" where
  "decode_uXXXX h1 h2 h3 h4 =
     (case (hex_value h1, hex_value h2, hex_value h3, hex_value h4) of
        (Some a, Some b, Some c, Some d) \<Rightarrow> Some (((a * 16 + b) * 16 + c) * 16 + d)
      | _ \<Rightarrow> None)"

definition utf8 :: "nat \<Rightarrow> string option" where
  "utf8 uni =
     (if uni < 0x80 then Some [char_of uni]
      else if uni < 0x800 then Some [char_of (0xC0 + uni div 64), char_of (0x80 + uni mod 64)]
      else if 0xD800 \<le> uni \<and> uni \<le> 0xDFFF then None
      else Some [char_of (0xE0 + uni div 4096), char_of (0x80 + uni div 64 mod 64),
                 char_of (0x80 + uni mod 64)])"

definition backslash :: "char \<Rightarrow> char option" where
  "backslash esc =
     (if esc = CHR 0x22 then Some (CHR 0x22)
      else if esc = CHR 0x5C then Some (CHR 0x5C)
      else if esc = CHR ''/'' then Some (CHR ''/'')
      else if esc = CHR ''b'' then Some (CHR 0x08)
      else if esc = CHR ''f'' then Some (CHR 0x0C)
      else if esc = CHR ''n'' then Some (CHR 0x0A)
      else if esc = CHR ''r'' then Some (CHR 0x0D)
      else if esc = CHR ''t'' then Some (CHR 0x09)
      else None)"

fun scanstring :: "string \<Rightarrow> (string \<times> string) option" where
  "scanstring [] = None"
| "scanstring (c # cs) =
     (if c = CHR 0x22 then Some ([], cs)
      else if c = CHR 0x5C then
        (case cs of
           [] \<Rightarrow> None
         | esc # cs1 \<Rightarrow>
             if esc = CHR ''u'' then
               (case cs1 of
                  h1 # h2 # h3 # h4 # cs2 \<Rightarrow>
                    (case decode_uXXXX h1 h2 h3 h4 of
                       None \<Rightarrow> None
                     | Some uni \<Rightarrow>
                         (case utf8 uni of
                            None \<Rightarrow> None
                          | Some bytes \<Rightarrow>
                              (case scanstring cs2 of
                                 None \<Rightarrow> None
                               | Some (s, r) \<Rightarrow> Some (bytes @ s, r))))
                | _ \<Rightarrow> None)
             else
               (case backslash esc of
                  None \<Rightarrow> None
                | Some ch \<Rightarrow>
                    (case scanstring cs1 of
                       None \<Rightarrow> None
                     | Some (s, r) \<Rightarrow> Some (ch # s, r))))
      else if (of_char c :: nat) < 0x20 then None
      else (case scanstring cs of None \<Rightarrow> None | Some (s, r) \<Rightarrow> Some (c # s, r)))"

fun scan_once :: "nat \<Rightarrow> string \<Rightarrow> (json \<times> string) option"
  and scan_array :: "nat \<Rightarrow> string \<Rightarrow> (json list \<times> string) option"
  and scan_object :: "nat \<Rightarrow> string \<Rightarrow> ((string \<times> json) list \<times> string) option" where
  "scan_once 0 s = None"
| "scan_once (Suc n) [] = None"
| "scan_once (Suc n) (c # cs) =
     (if c = CHR 0x22 then
        (case scanstring cs of None \<Rightarrow> None | Some (x, r) \<Rightarrow> Some (JString x, r))
      else if c = CHR ''['' then
        (case skip_whitespace cs of
           [] \<Rightarrow> None
         | d # ds \<Rightarrow>
             if d = CHR '']'' then Some (JArray [], ds)
             else (case scan_array n (d # ds) of
                     None \<Rightarrow> None
                   | Some (vs, r) \<Rightarrow> Some (JArray vs, r)))
      else if c = CHR ''{'' then
        (case skip_whitespace cs of
           [] \<Rightarrow> None
         | d # ds \<Rightarrow>
             if d = CHR ''}'' then Some (JObject [], ds)
             else (case scan_object n (d # ds) of
                     None \<Rightarrow> None
                   | Some (kvs, r) \<Rightarrow> Some (JObject kvs, r)))
      else None)"
| "scan_array 0 s = None"
| "scan_array (Suc n) s =
     (case scan_once n s of
        None \<Rightarrow> None
      | Some (v, r) \<Rightarrow>
          (case skip_whitespace r of
             [] \<Rightarrow> None
           | d # ds \<Rightarrow>
               if d = CHR '']'' then Some ([v], ds)
               else if d = CHR '','' then
                 (case scan_array n (skip_whitespace ds) of
                    None \<Rightarrow> None
                  | Some (vs, r') \<Rightarrow> Some (v # vs, r'))
               else None))"
| "scan_object 0 s = None"
| "scan_object (Suc n) [] = None"
| "scan_object (Suc n) (q # s) =
     (if q \<noteq> CHR 0x22 then None
      else
        (case scanstring s of
           None \<Rightarrow> None
         | Some (k, r) \<Rightarrow>
             (case skip_whitespace r of
                [] \<Rightarrow> None
              | colon # r1 \<Rightarrow>
                  if colon \<noteq> CHR '':'' then None
                  else
                    (case scan_once n (skip_whitespace r1) of
                       None \<Rightarrow> None
                     | Some (v, r2) \<Rightarrow>
                         (case skip_whitespace r2 of
                            [] \<Rightarrow> None
                          | d # ds \<Rightarrow>
                              if d = CHR ''}'' then Some ([(k, v)], ds)
                              else if d = CHR '','' then
                                (case scan_object n (skip_whitespace ds) of
                                   None \<Rightarrow> None
                                 | Some (kvs, r') \<Rightarrow> Some ((k, v) # kvs, r'))
                              else None)))))"

definition json_loads :: "string \<Rightarrow> json option" where
  "json_loads s =
     (case scan_once (length s) (skip_whitespace s) of
        None \<Rightarrow> None
      | Some (obj, r) \<Rightarrow> if skip_whitespace r = [] then Some obj else None)"

text \<open>A text \<open>opens_value\<close> when its first character starts a string, an array or an
  object.\<close>

definition opens_value :: "string \<Rightarrow> bool" where
  "opens_value s = (\<exists>d ds. s = d # ds \<and> (d = CHR 0x22 \<or> d = CHR ''['' \<or> d = CHR ''{''))"

subsection \<open>\<^verbatim>\<open>main\<close>\<close>

definition file_path :: string where
  "file_path = ''UPS1.xmi''"

definition output_file :: string where
  "output_file = ''station_details.json''"

definition no_class_message :: string where
  "no_class_message =
     ''Aucune classe 'station' trouv'' @ [CHR 0xC3, CHR 0xA9] @ ''e dans le fichier.''"

definition class_id_message :: "string \<Rightarrow> string" where
  "class_id_message station_id =
     ''L'ID de la classe 'station' est:'' @ [CHR 0x0A] @ ''  '' @ station_id @ [CHR 0x0A]"

definition no_attribute_message :: string where
  "no_attribute_message =
     ''Aucun attribut trouv'' @ [CHR 0xC3, CHR 0xA9] @ '' pour la classe 'station'.''"

definition attribute_ids_header :: string where
  "attribute_ids_header = ''  ID des attributs de la classe 'station' :''"

definition no_instance_message :: string where
  "no_instance_message =
     ''Aucune instance de la classe 'Station' trouv'' @ [CHR 0xC3, CHR 0xA9]
       @ ''e dans le fichier.''"

text \<open>\<^verbatim>\<open>for attr_id in attribute_ids: print(f"    {attr_id}")\<close>\<close>

fun print_ids :: "string list \<Rightarrow> world \<Rightarrow> world" where
  "print_ids [] w = w"
| "print_ids (attr_id # rest) w = print_ids rest (py_print (''    '' @ attr_id) w)"

text \<open>
  \<^verbatim>\<open>if not station_id\<close> holds for \<^verbatim>\<open>None\<close> and for the empty string. A
  \<^verbatim>\<open>station_element\<close> that is \<^verbatim>\<open>None\<close> next to a non-empty identifier has no
  \<^verbatim>\<open>find_all\<close>; \<^verbatim>\<open>get_station_id\<close> never returns such a pair.
\<close>

definition main :: "bs4 \<Rightarrow> (string \<Rightarrow> tag) \<Rightarrow> world \<Rightarrow> (error + unit) \<times> world" where
  "main lib parse w =
     (case get_station_id lib parse file_path w of
        (Inl e, w1) \<Rightarrow> (Inl e, w1)
      | (Inr (None, station_element), w1) \<Rightarrow> (Inr (), py_print no_class_message w1)
      | (Inr (Some station_id, station_element), w1) \<Rightarrow>
          (if station_id = [] then (Inr (), py_print no_class_message w1)
           else
             (let w2 = py_print (class_id_message station_id) w1 in
              case station_element of
                None \<Rightarrow> (Inl (AttributeError ''find_all''), w2)
              | Some element \<Rightarrow>
                  (case get_station_attributes lib element of
                     Inl e \<Rightarrow> (Inl e, w2)
                   | Inr attribute_ids \<Rightarrow>
                       (if attribute_ids = [] then (Inr (), py_print no_attribute_message w2)
                        else
                          (let w3 = print_ids attribute_ids (py_print attribute_ids_header w2) in
                           case read_file file_path w3 of
                             (Inl e, w4) \<Rightarrow> (Inl e, w4)
                           | (Inr content, w4) \<Rightarrow>
                               (let w5 = BeautifulSoup parse content w4;
                                    station_instances =
                                      get_station_instances lib (soup w5) station_id in
                                if station_instances = [] then
                                  (Inr (), py_print no_instance_message w5)
                                else
                                  (case print_station_details lib station_instances w5 of
                                     (Inl e, w6) \<Rightarrow> (Inl e, w6)
                                   | (Inr station_details, w6) \<Rightarrow>
                                       (Inr (),
                                        save_station_details_to_json station_details
                                          output_file w6)))))))))"

section \<open>Example documents\<close>

text \<open>
  The documents the closed examples below run on. \<open>example_document\<close> is a model with
  the class \<^verbatim>\<open>Station\<close> (identifier \<^verbatim>\<open>C1\<close>), its attribute \<^verbatim>\<open>Name\<close>
  (identifier \<^verbatim>\<open>A1\<close>) and one instance \<^verbatim>\<open>UPS1\<close> whose slot gives that attribute
  the value \<^verbatim>\<open>North Gate\<close>. \<open>parse_as doc\<close> stands for a parser run on a file whose
  content is the serialisation of \<open>doc\<close>.
\<close>

definition document_of :: "tag list \<Rightarrow> tag" where
  "document_of elements = Tag ''[document]'' [] [Tag ''Model'' [] elements]"

definition class_of :: "(string \<times> string) list \<Rightarrow> tag list \<Rightarrow> tag" where
  "class_of identity owned =
     Tag ''packagedElement'' ((''xmi:type'', ''uml:Class'') # identity @ [(''name'', ''Station'')])
       owned"

definition instance_of :: "(string \<times> string) list \<Rightarrow> tag list \<Rightarrow> tag" where
  "instance_of naming slots =
     Tag ''packagedElement''
       ((''xmi:type'', ''uml:InstanceSpecification'') # (''xmi:id'', ''I1'') # naming
          @ [(''classifier'', ''C1'')])
       slots"

definition name_attribute :: tag where
  "name_attribute = Tag ''ownedAttribute'' [(''xmi:id'', ''A1''), (''name'', ''Name'')] []"

definition station_class :: tag where
  "station_class = class_of [(''xmi:id'', ''C1'')] [name_attribute]"

definition north_gate_slot :: tag where
  "north_gate_slot =
     Tag ''slot'' [(''definingFeature'', ''A1'')] [Tag ''value'' [(''symbol'', ''North Gate'')] []]"

definition dangling_slot :: tag where
  "dangling_slot = Tag ''slot'' [(''definingFeature'', ''A9'')] [Tag ''value'' [] []]"

definition ups1 :: tag where
  "ups1 = instance_of [(''name'', ''UPS1'')] [north_gate_slot]"

definition example_document :: tag where
  "example_document = document_of [station_class, ups1]"

definition parse_as :: "tag \<Rightarrow> string \<Rightarrow> tag" where
  "parse_as doc content = doc"

definition example_world :: world where
  "example_world =
     \<lparr>files = [(''UPS1.xmi'', ''<xmi:XMI/>'')], stdout = [], io_log = [],
      soup = Tag ''[document]'' [] []\<rparr>"

definition loaded :: "tag \<Rightarrow> world" where
  "loaded doc = example_world\<lparr>io_log := [OpenRead ''UPS1.xmi'', ParseXML], soup := doc\<rparr>"

definition blank :: "string \<Rightarrow> station_data" where
  "blank nm = \<lparr>station_name = nm, attributes = []\<rparr>"

definition quoted :: "string \<Rightarrow> string" where
  "quoted s = CHR 0x22 # s @ [CHR 0x22]"

definition cafe :: station_data where
  "cafe =
     \<lparr>station_name = ''UPS1'',
      attributes = [\<lparr>attribute_name = ''Name'',
                     attribute_value = ''Caf'' @ [CHR 0xC3, CHR 0xA9]\<rparr>]\<rparr>"

lemmas example_defs = document_of_def class_of_def instance_of_def name_attribute_def
  station_class_def north_gate_slot_def dangling_slot_def ups1_def example_document_def
  parse_as_def example_world_def loaded_def blank_def

lemmas stage_defs = find_all_def find_first_def matches_tag_def getitem_def station_filter_def
  get_station_id_def get_station_attributes_def get_station_instances_def slot_body_def
  print_station_details_def Aucune_valeur_def read_file_def write_file_def BeautifulSoup_def
  py_print_def save_station_details_to_json_def main_def file_path_def output_file_def Let_def

section \<open>Searching the tree\<close>

lemma matches_value_Exact:
  "matches_value lib x (Exact s) \<longleftrightarrow> x = Some s \<or> (lib = Before_4_13 \<and> s = [] \<and> x = None)"
  by (cases lib; cases x) auto

lemma matches_value_Exact_nonempty:
  "s \<noteq> [] \<Longrightarrow> matches_value lib x (Exact s) \<longleftrightarrow> x = Some s"
  by (auto simp: matches_value_Exact)

lemma matches_value_AnyOf_nonempty:
  "ss \<noteq> [] \<Longrightarrow> matches_value lib x (AnyOf ss) \<longleftrightarrow> (\<exists>s \<in> set ss. x = Some s)"
  by (cases lib; cases x) auto

lemma matches_tag_no_filter: "matches_tag lib nm [] = (\<lambda>e. name e = nm)"
  by (rule ext) (simp add: matches_tag_def)

lemma matches_tag_one_attribute:
  "matches_tag lib nm [(k, Exact v)] =
     (\<lambda>e. name e = nm
          \<and> (map_of (attrs e) k = Some v
             \<or> (lib = Before_4_13 \<and> v = [] \<and> map_of (attrs e) k = None)))"
  by (rule ext) (simp add: matches_tag_def matches_value_Exact)

lemma matches_station:
  "matches_tag lib ''packagedElement'' station_filter =
     (\<lambda>e. name e = ''packagedElement''
          \<and> map_of (attrs e) ''xmi:type'' = Some ''uml:Class''
          \<and> map_of (attrs e) ''name'' = Some ''Station'')"
  by (rule ext)
     (auto simp: matches_tag_def station_filter_def matches_value_Exact_nonempty
        matches_value_AnyOf_nonempty)

lemma find_all_by_name:
  "find_all lib t nm [] = filter (\<lambda>e. name e = nm) (descendants t)"
  by (simp add: find_all_def matches_tag_no_filter)

lemma first_of_filter:
  "(case filter P xs of [] \<Rightarrow> None | r # _ \<Rightarrow> Some r) = List.find P xs"
  by (induction xs) auto

lemma find_first_eq_find:
  "find_first lib t nm flt = List.find (matches_tag lib nm flt) (descendants t)"
  by (simp add: find_first_def find_all_def first_of_filter)

lemma find_first_None_iff:
  "find_first lib t nm flt = None \<longleftrightarrow> (\<forall>e \<in> set (descendants t). \<not> matches_tag lib nm flt e)"
  by (auto simp: find_first_eq_find find_None_iff)

lemma find_first_by_attribute:
  "find_first lib doc nm [(k, Exact v)] =
     List.find (\<lambda>e. name e = nm
                    \<and> (map_of (attrs e) k = Some v
                       \<or> (lib = Before_4_13 \<and> v = [] \<and> map_of (attrs e) k = None)))
       (descendants doc)"
  by (simp add: find_first_eq_find matches_tag_one_attribute)


lemma getitem_eq_Inr: "getitem t k = Inr v \<longleftrightarrow> map_of (attrs t) k = Some v"
  by (simp add: getitem_def split: option.splits)


section \<open>The console and the frame of the record builder\<close>

lemma py_print_fields [simp]:
  "soup (py_print l w) = soup w" "files (py_print l w) = files w"
  "io_log (py_print l w) = io_log w" "stdout (py_print l w) = stdout w @ [l]"
  by (simp_all add: py_print_def)

lemma print_attrs_fields [simp]:
  "soup (print_attrs es w) = soup w" "files (print_attrs es w) = files w"
  "io_log (print_attrs es w) = io_log w"
  by (induction es arbitrary: w) simp_all

lemma print_ids_fields [simp]:
  "soup (print_ids ids w) = soup w" "files (print_ids ids w) = files w"
  "io_log (print_ids ids w) = io_log w"
  by (induction ids arbitrary: w) simp_all


lemma save_fields [simp]:
  "soup (save_station_details_to_json ds out w) = soup w"
  "io_log (save_station_details_to_json ds out w) = io_log w @ [OpenWrite out]"
  by (simp_all add: save_station_details_to_json_def write_file_def)

lemma stations_loop_frame:
  "soup (snd (stations_loop lib insts acc w)) = soup w
   \<and> files (snd (stations_loop lib insts acc w)) = files w
   \<and> io_log (snd (stations_loop lib insts acc w)) = io_log w"
  by (induction insts arbitrary: acc w) (auto split: sum.splits)

lemma print_station_details_frame:
  "soup (snd (print_station_details lib insts w)) = soup w
   \<and> files (snd (print_station_details lib insts w)) = files w
   \<and> io_log (snd (print_station_details lib insts w)) = io_log w"
  by (simp add: print_station_details_def stations_loop_frame)

lemma print_station_details_fields:
  "print_station_details lib insts w = (r, w') \<Longrightarrow>
     soup w' = soup w \<and> files w' = files w \<and> io_log w' = io_log w"
  using print_station_details_frame[of lib insts w] by simp

section \<open>The slot loop\<close>


lemma slot_body_dangling:
  assumes "map_of (attrs slot) ''definingFeature'' = Some d"
    and "\<forall>a \<in> set (descendants doc).
           name a = ''ownedAttribute'' \<longrightarrow>
           map_of (attrs a) ''xmi:id'' \<noteq> Some d
           \<and> (lib = Before_4_13 \<and> d = [] \<longrightarrow> map_of (attrs a) ''xmi:id'' \<noteq> None)"
  shows "slot_body lib doc slot sd = Inr sd"
proof -
  have "find_first lib doc ''ownedAttribute'' [(''xmi:id'', Exact d)] = None"
    using assms(2) by (auto simp: find_first_None_iff matches_tag_one_attribute)
  then show ?thesis
    using assms(1) by (simp add: slot_body_def getitem_def)
qed

lemma slots_loop_append:
  "slots_loop lib doc (xs @ ys) sd =
     (case slots_loop lib doc xs sd of Inl e \<Rightarrow> Inl e | Inr sd' \<Rightarrow> slots_loop lib doc ys sd')"
  by (induction xs arbitrary: sd) (auto split: sum.splits)

lemma slots_loop_skip:
  assumes "slot_body lib doc slot = Inr"
  shows "slots_loop lib doc (before @ slot # after) sd = slots_loop lib doc (before @ after) sd"
  by (simp add: slots_loop_append assms split: sum.splits)

lemma slot_body_no_value:
  assumes "map_of (attrs slot) ''definingFeature'' = Some d"
    and "List.find (\<lambda>e. name e = ''ownedAttribute''
                        \<and> (map_of (attrs e) ''xmi:id'' = Some d
                           \<or> (lib = Before_4_13 \<and> d = [] \<and> map_of (attrs e) ''xmi:id'' = None)))
           (descendants doc) = Some a"
    and "map_of (attrs a) ''name'' = Some n"
    and "\<forall>v \<in> set (descendants slot). name v \<noteq> ''value''"
  shows "slot_body lib doc slot sd =
     Inr (sd\<lparr>attributes := attributes sd @
            [\<lparr>attribute_name = n, attribute_value = ''Aucune valeur''\<rparr>]\<rparr>)"
proof -
  have "find_first lib slot ''value'' [] = None"
    using assms(4) by (auto simp: find_first_None_iff matches_tag_no_filter)
  then show ?thesis
    using assms(1-3)
    by (simp add: slot_body_def getitem_def find_first_by_attribute Aucune_valeur_def)
qed






lemma slot_body_appends:
  "slot_body lib doc slot sd = Inr sd' \<Longrightarrow>
     station_name sd' = station_name sd \<and> (\<exists>new. attributes sd' = attributes sd @ new)"
  by (auto simp: slot_body_def split: sum.splits option.splits)

lemma slots_loop_appends:
  "slots_loop lib doc slots sd = Inr sd' \<Longrightarrow>
     station_name sd' = station_name sd \<and> (\<exists>new. attributes sd' = attributes sd @ new)"
proof (induction slots arbitrary: sd)
  case Nil
  then show ?case by simp
next
  case (Cons s slots)
  from Cons.prems obtain sd1 where
    1: "slot_body lib doc s sd = Inr sd1" and 2: "slots_loop lib doc slots sd1 = Inr sd'"
    by (auto split: sum.splits)
  from slot_body_appends[OF 1] Cons.IH[OF 2] show ?case by auto
qed

lemma slot_body_entry_indep:
  "slot_body lib doc slot sd0 = Inr sd1 \<Longrightarrow> attributes sd1 = attributes sd0 @ [e] \<Longrightarrow>
   \<exists>sd'. slot_body lib doc slot sd = Inr sd' \<and> attributes sd' = attributes sd @ [e]"
  by (auto simp: slot_body_def split: sum.splits option.splits)

lemma slots_loop_keeps_entry:
  assumes "slots_loop lib doc slots sd = Inr sd'" "slot \<in> set slots"
    and "slot_body lib doc slot sd0 = Inr sd1" "attributes sd1 = attributes sd0 @ [e]"
  shows "e \<in> set (attributes sd')"
  using assms(1,2)
proof (induction slots arbitrary: sd)
  case Nil
  then show ?case by simp
next
  case (Cons s slots)
  from Cons.prems(1) obtain sd2 where
    1: "slot_body lib doc s sd = Inr sd2" and 2: "slots_loop lib doc slots sd2 = Inr sd'"
    by (auto split: sum.splits)
  show ?case
  proof (cases "s = slot")
    case True
    with 1 slot_body_entry_indep[OF assms(3,4), of sd] have "e \<in> set (attributes sd2)"
      by auto
    with slots_loop_appends[OF 2] show ?thesis by auto
  next
    case False
    with Cons.prems(2) have "slot \<in> set slots" by simp
    from Cons.IH[OF 2 this] show ?thesis .
  qed
qed

section \<open>The instance loop\<close>




lemma stations_loop_replace:
  assumes "map_of (attrs inst) ''name'' = map_of (attrs inst') ''name''"
    and "\<And>sd. slots_loop lib (soup w) (find_all lib inst ''slot'' []) sd
            = slots_loop lib (soup w) (find_all lib inst' ''slot'' []) sd"
  shows "stations_loop lib (pre @ inst # post) acc w = stations_loop lib (pre @ inst' # post) acc w"
  using assms(2)
proof (induction pre arbitrary: acc w)
  case Nil
  then show ?case using assms(1) by (simp add: getitem_def split: option.splits sum.splits)
next
  case (Cons p pre)
  show ?case
  proof (cases "getitem p ''name''")
    case (Inl e)
    then show ?thesis by simp
  next
    case (Inr nm)
    then show ?thesis
      using Cons by (simp split: sum.splits)
  qed
qed

lemma stations_loop_records:
  assumes "fst (stations_loop lib insts acc w) = Inr details"
  shows "set acc \<subseteq> set details \<and>
     (\<forall>inst \<in> set insts. \<exists>sd \<in> set details.
           slots_loop lib (soup w) (find_all lib inst ''slot'' [])
             \<lparr>station_name = station_name sd, attributes = []\<rparr> = Inr sd
           \<and> map_of (attrs inst) ''name'' = Some (station_name sd))"
  using assms
proof (induction insts arbitrary: acc w)
  case Nil
  then show ?case by simp
next
  case (Cons i insts)
  from Cons.prems(1) obtain nm where nm: "getitem i ''name'' = Inr nm"
    by (cases "getitem i ''name''") auto
  from Cons.prems(1) nm obtain sd where
    sd: "slots_loop lib (soup w) (find_all lib i ''slot'' []) \<lparr>station_name = nm, attributes = []\<rparr>
           = Inr sd"
    by (cases "slots_loop lib (soup w) (find_all lib i ''slot'' [])
                 \<lparr>station_name = nm, attributes = []\<rparr>") auto
  let ?w' = "print_attrs (attributes sd) (py_print (CHR 0x0A # ''Station: '' @ nm) w)"
  have rest: "fst (stations_loop lib insts (acc @ [sd]) ?w') = Inr details"
    using Cons.prems(1) nm sd by simp
  have soup': "soup ?w' = soup w" by simp
  from Cons.IH[OF rest] soup' have
    sub: "set (acc @ [sd]) \<subseteq> set details" and
    others: "\<forall>inst \<in> set insts. \<exists>sd \<in> set details.
           slots_loop lib (soup w) (find_all lib inst ''slot'' [])
             \<lparr>station_name = station_name sd, attributes = []\<rparr> = Inr sd
           \<and> map_of (attrs inst) ''name'' = Some (station_name sd)"
    by simp_all
  have "station_name sd = nm" using slots_loop_appends[OF sd] by simp
  then have this_one: "\<exists>sd \<in> set details.
           slots_loop lib (soup w) (find_all lib i ''slot'' [])
             \<lparr>station_name = station_name sd, attributes = []\<rparr> = Inr sd
           \<and> map_of (attrs i) ''name'' = Some (station_name sd)"
    using sub sd nm by (auto simp: getitem_eq_Inr)
  show ?case using sub others this_one by simp
qed

section \<open>Reading the input\<close>

lemma read_file_present:
  "map_of (files w) p = Some c \<Longrightarrow>
     read_file p w = (Inr c, w\<lparr>io_log := io_log w @ [OpenRead p]\<rparr>)"
  by (simp add: read_file_def)

lemma read_file_absent:
  "map_of (files w) p = None \<Longrightarrow> read_file p w = (Inl (FileNotFoundError p), w)"
  by (simp add: read_file_def)

lemma get_station_id_absent:
  "map_of (files w) fp = None \<Longrightarrow> get_station_id lib parse fp w = (Inl (FileNotFoundError fp), w)"
  by (simp add: get_station_id_def read_file_absent)

lemma get_station_id_present:
  assumes "map_of (files w) fp = Some content"
  shows "get_station_id lib parse fp w =
     (case List.find (\<lambda>e. name e = ''packagedElement''
                          \<and> map_of (attrs e) ''xmi:type'' = Some ''uml:Class''
                          \<and> map_of (attrs e) ''name'' = Some ''Station'')
             (descendants (parse content)) of
        None \<Rightarrow> Inr (None, None)
      | Some station \<Rightarrow>
          (case map_of (attrs station) ''xmi:id'' of
             None \<Rightarrow> Inl (KeyError ''xmi:id'')
           | Some i \<Rightarrow> Inr (Some i, Some station)),
      w\<lparr>io_log := io_log w @ [OpenRead fp, ParseXML], soup := parse content\<rparr>)"
  by (simp add: get_station_id_def read_file_present[OF assms] BeautifulSoup_def
      find_first_eq_find matches_station getitem_def split: option.splits)

lemma get_station_id_element:
  assumes "map_of (files w) fp = Some content"
    and "fst (get_station_id lib parse fp w) = Inr (Some i, el)"
  shows "\<exists>st. el = Some st"
  using assms(2) by (simp add: get_station_id_present[OF assms(1)] split: option.splits) metis

lemma attribute_ids_of_Inr:
  "attribute_ids_of ts = Inr ids \<longleftrightarrow> map (\<lambda>a. map_of (attrs a) ''xmi:id'') ts = map Some ids"
proof (induction ts arbitrary: ids)
  case Nil
  then show ?case by auto
next
  case (Cons t ts)
  show ?case
  proof (cases "map_of (attrs t) ''xmi:id''")
    case None
    then show ?thesis by (auto simp: getitem_def)
  next
    case (Some i)
    show ?thesis
    proof (cases "attribute_ids_of ts")
      case (Inl e)
      then have "\<And>js. map (\<lambda>a. map_of (attrs a) ''xmi:id'') ts \<noteq> map Some js"
        using Cons.IH by simp
      then show ?thesis
        using Some Inl by (cases ids) (auto simp: getitem_def)
    next
      case (Inr js)
      then have "map (\<lambda>a. map_of (attrs a) ''xmi:id'') ts = map Some js"
        using Cons.IH by simp
      then show ?thesis
        using Some Inr by (cases ids) (auto simp: getitem_def)
    qed
  qed
qed

lemma attribute_ids_of_Inl:
  "attribute_ids_of ts = Inl e \<longleftrightarrow>
     (\<exists>a \<in> set ts. map_of (attrs a) ''xmi:id'' = None) \<and> e = KeyError ''xmi:id''"
  by (induction ts) (auto simp: getitem_def split: option.splits sum.splits)

section \<open>Class location\<close>

text \<open>
  Claim C3 says that for every document containing a \<^verbatim>\<open>packagedElement\<close> of type
  \<^verbatim>\<open>uml:Class\<close> named \<^verbatim>\<open>Station\<close>, \<^verbatim>\<open>get_station_id\<close> returns the identifier and
  the element of the first one. The document below contains such a class, written
  without an \<^verbatim>\<open>xmi:id\<close>: the search finds it, and \<^verbatim>\<open>station['xmi:id']\<close> raises
  \<^verbatim>\<open>KeyError\<close> instead of returning, under either version of the library.
\<close>

theorem station_without_id_counterexample:
  "find_all Before_4_13 (document_of [class_of [] [name_attribute]]) ''packagedElement'' station_filter
     = [class_of [] [name_attribute]]
   \<and> fst (get_station_id Before_4_13 (parse_as (document_of [class_of [] [name_attribute]])) file_path
            example_world)
     = Inl (KeyError ''xmi:id'')
   \<and> find_all From_4_13 (document_of [class_of [] [name_attribute]]) ''packagedElement'' station_filter
     = [class_of [] [name_attribute]]
   \<and> fst (get_station_id From_4_13 (parse_as (document_of [class_of [] [name_attribute]])) file_path
            example_world)
     = Inl (KeyError ''xmi:id'')"
  by (simp add: example_defs stage_defs)

text \<open>
  Claim C3, amended: with the input file readable, \<^verbatim>\<open>get_station_id\<close> looks for the
  first element, in document order, that is a \<^verbatim>\<open>packagedElement\<close> of type
  \<^verbatim>\<open>uml:Class\<close> named \<^verbatim>\<open>Station\<close>. With no such element it returns the pair
  \<^verbatim>\<open>(None, None)\<close>; when the first such element carries an \<^verbatim>\<open>xmi:id\<close> it returns
  that identifier and that element; when it carries none, \<^verbatim>\<open>KeyError\<close> is raised.
\<close>

theorem get_station_id_first_match:
  assumes "map_of (files w) fp = Some content"
  shows "fst (get_station_id lib parse fp w) =
     (case List.find (\<lambda>e. name e = ''packagedElement''
                          \<and> map_of (attrs e) ''xmi:type'' = Some ''uml:Class''
                          \<and> map_of (attrs e) ''name'' = Some ''Station'')
             (descendants (parse content)) of
        None \<Rightarrow> Inr (None, None)
      | Some station \<Rightarrow>
          (case map_of (attrs station) ''xmi:id'' of
             None \<Rightarrow> Inl (KeyError ''xmi:id'')
           | Some i \<Rightarrow> Inr (Some i, Some station)))"
  by (simp add: get_station_id_present[OF assms])

theorem get_station_id_first_match_witness:
  "fst (get_station_id Before_4_13 (parse_as example_document) file_path example_world)
     = Inr (Some ''C1'', Some station_class)
   \<and> fst (get_station_id Before_4_13 (parse_as (document_of [ups1])) file_path example_world)
     = Inr (None, None)
   \<and> fst (get_station_id From_4_13 (parse_as example_document) file_path example_world)
     = Inr (Some ''C1'', Some station_class)
   \<and> fst (get_station_id From_4_13 (parse_as (document_of [ups1])) file_path example_world)
     = Inr (None, None)"
  using get_station_id_first_match[where w = example_world and fp = file_path
      and content = "''<xmi:XMI/>''" and parse = "parse_as example_document" and lib = Before_4_13]
    get_station_id_first_match[where w = example_world and fp = file_path
      and content = "''<xmi:XMI/>''" and parse = "parse_as (document_of [ups1])" and lib = Before_4_13]
    get_station_id_first_match[where w = example_world and fp = file_path
      and content = "''<xmi:XMI/>''" and parse = "parse_as example_document" and lib = From_4_13]
    get_station_id_first_match[where w = example_world and fp = file_path
      and content = "''<xmi:XMI/>''" and parse = "parse_as (document_of [ups1])" and lib = From_4_13]
  by (simp add: example_defs file_path_def)

section \<open>Attribute enumeration\<close>

text \<open>
  Claim C5 says that for every class element with N \<^verbatim>\<open>ownedAttribute\<close> descendants
  \<^verbatim>\<open>get_station_attributes\<close> returns N identifiers. The class below has one owned
  attribute, written without an \<^verbatim>\<open>xmi:id\<close>: the comprehension raises \<^verbatim>\<open>KeyError\<close>
  and no list is returned, under either version of the library.
\<close>

theorem attribute_without_id_counterexample:
  "find_all Before_4_13 (class_of [(''xmi:id'', ''C1'')] [Tag ''ownedAttribute'' [(''name'', ''Name'')] []])
       ''ownedAttribute'' []
     = [Tag ''ownedAttribute'' [(''name'', ''Name'')] []]
   \<and> get_station_attributes Before_4_13
       (class_of [(''xmi:id'', ''C1'')] [Tag ''ownedAttribute'' [(''name'', ''Name'')] []])
     = Inl (KeyError ''xmi:id'')
   \<and> find_all From_4_13 (class_of [(''xmi:id'', ''C1'')] [Tag ''ownedAttribute'' [(''name'', ''Name'')] []])
       ''ownedAttribute'' []
     = [Tag ''ownedAttribute'' [(''name'', ''Name'')] []]
   \<and> get_station_attributes From_4_13
       (class_of [(''xmi:id'', ''C1'')] [Tag ''ownedAttribute'' [(''name'', ''Name'')] []])
     = Inl (KeyError ''xmi:id'')"
  by (simp add: example_defs stage_defs)

text \<open>
  Claim C5, amended: \<^verbatim>\<open>get_station_attributes\<close> returns a list \<open>ids\<close> exactly when
  \<open>ids\<close> are the \<^verbatim>\<open>xmi:id\<close> values of the \<^verbatim>\<open>ownedAttribute\<close> descendants of the class
  element, one per descendant and in document order (so N descendants give N
  identifiers); it raises \<^verbatim>\<open>KeyError\<close> exactly when one of them has no \<^verbatim>\<open>xmi:id\<close>.
\<close>

theorem get_station_attributes_ids:
  "(get_station_attributes lib station_element = Inr ids \<longleftrightarrow>
      map (\<lambda>a. map_of (attrs a) ''xmi:id'')
        (filter (\<lambda>e. name e = ''ownedAttribute'') (descendants station_element))
      = map Some ids)
   \<and> (get_station_attributes lib station_element = Inr ids \<longrightarrow>
      length ids
      = length (filter (\<lambda>e. name e = ''ownedAttribute'') (descendants station_element)))
   \<and> (get_station_attributes lib station_element = Inl err \<longleftrightarrow>
      (\<exists>a \<in> set (filter (\<lambda>e. name e = ''ownedAttribute'') (descendants station_element)).
          map_of (attrs a) ''xmi:id'' = None) \<and> err = KeyError ''xmi:id'')"
proof -
  let ?owned = "filter (\<lambda>e. name e = ''ownedAttribute'') (descendants station_element)"
  have r: "get_station_attributes lib station_element = Inr ids \<longleftrightarrow>
      map (\<lambda>a. map_of (attrs a) ''xmi:id'') ?owned = map Some ids"
    unfolding get_station_attributes_def find_all_by_name by (rule attribute_ids_of_Inr)
  have l: "get_station_attributes lib station_element = Inl err \<longleftrightarrow>
      (\<exists>a \<in> set ?owned. map_of (attrs a) ''xmi:id'' = None) \<and> err = KeyError ''xmi:id''"
    unfolding get_station_attributes_def find_all_by_name by (rule attribute_ids_of_Inl)
  have n: "length ids = length ?owned" if "get_station_attributes lib station_element = Inr ids"
  proof -
    from that r have "length (map (\<lambda>a. map_of (attrs a) ''xmi:id'') ?owned)
        = length (map Some ids)"
      by simp
    then show ?thesis by simp
  qed
  show ?thesis using r l n by blast
qed

theorem get_station_attributes_ids_witness:
  "get_station_attributes Before_4_13 station_class = Inr [''A1'']
   \<and> length [''A1''] = length (filter (\<lambda>e. name e = ''ownedAttribute'') (descendants station_class))
   \<and> get_station_attributes From_4_13 station_class = Inr [''A1'']
   \<and> length [''A1''] = length (filter (\<lambda>e. name e = ''ownedAttribute'') (descendants station_class))"
  using get_station_attributes_ids[where station_element = station_class and ids = "[''A1'']"
      and lib = Before_4_13]
    get_station_attributes_ids[where station_element = station_class and ids = "[''A1'']"
      and lib = From_4_13]
  by (simp add: example_defs)

section \<open>Instance resolution\<close>

text \<open>
  Claim C4 says that for every document and class identifier
  \<^verbatim>\<open>get_station_instances\<close> returns exactly the \<^verbatim>\<open>packagedElement\<close> nodes of type
  \<^verbatim>\<open>uml:InstanceSpecification\<close> whose \<^verbatim>\<open>classifier\<close> attribute equals the identifier.
  With a library older than 4.13 and the empty identifier this fails: the instance
  below has no \<^verbatim>\<open>classifier\<close> attribute at all, and the search for the classifier
  \<^verbatim>\<open>''\<close> returns it. From 4.13 on the same search returns nothing.
\<close>

theorem unclassified_instance_counterexample:
  "getitem (Tag ''packagedElement''
              [(''xmi:type'', ''uml:InstanceSpecification''), (''name'', ''UPS9'')] [])
       ''classifier''
     = Inl (KeyError ''classifier'')
   \<and> get_station_instances Before_4_13
       (document_of [Tag ''packagedElement''
                       [(''xmi:type'', ''uml:InstanceSpecification''), (''name'', ''UPS9'')] []])
       []
     = [Tag ''packagedElement''
          [(''xmi:type'', ''uml:InstanceSpecification''), (''name'', ''UPS9'')] []]
   \<and> get_station_instances From_4_13
       (document_of [Tag ''packagedElement''
                       [(''xmi:type'', ''uml:InstanceSpecification''), (''name'', ''UPS9'')] []])
       []
     = []"
  by (simp add: example_defs stage_defs)

text \<open>
  Claim C4, amended: for every document and every non-empty class identifier (the
  only kind \<^verbatim>\<open>main\<close> passes on, after \<^verbatim>\<open>if not station_id\<close>), and for every
  identifier when the library is 4.13 or later, \<^verbatim>\<open>get_station_instances\<close> returns
  exactly the \<^verbatim>\<open>packagedElement\<close> nodes, at any depth, of type
  \<^verbatim>\<open>uml:InstanceSpecification\<close> whose \<^verbatim>\<open>classifier\<close> attribute equals the identifier,
  in document order, and no other element. With an older library and the empty
  identifier it returns, in document order, those whose \<^verbatim>\<open>classifier\<close> is empty or
  absent.
\<close>

theorem get_station_instances_exact:
  "get_station_instances lib doc station_classifier_id =
     filter (\<lambda>e. name e = ''packagedElement''
                 \<and> map_of (attrs e) ''xmi:type'' = Some ''uml:InstanceSpecification''
                 \<and> (map_of (attrs e) ''classifier'' = Some station_classifier_id
                    \<or> (lib = Before_4_13 \<and> station_classifier_id = []
                       \<and> map_of (attrs e) ''classifier'' = None)))
       (descendants doc)
   \<and> (station_classifier_id \<noteq> [] \<or> lib = From_4_13 \<longrightarrow>
       get_station_instances lib doc station_classifier_id =
         filter (\<lambda>e. name e = ''packagedElement''
                     \<and> map_of (attrs e) ''xmi:type'' = Some ''uml:InstanceSpecification''
                     \<and> map_of (attrs e) ''classifier'' = Some station_classifier_id)
           (descendants doc))"
proof -
  have general: "get_station_instances lib doc station_classifier_id =
     filter (\<lambda>e. name e = ''packagedElement''
                 \<and> map_of (attrs e) ''xmi:type'' = Some ''uml:InstanceSpecification''
                 \<and> (map_of (attrs e) ''classifier'' = Some station_classifier_id
                    \<or> (lib = Before_4_13 \<and> station_classifier_id = []
                       \<and> map_of (attrs e) ''classifier'' = None)))
       (descendants doc)"
    unfolding get_station_instances_def find_all_def matches_tag_def
    by (simp add: matches_value_Exact)
  have "get_station_instances lib doc station_classifier_id =
         filter (\<lambda>e. name e = ''packagedElement''
                     \<and> map_of (attrs e) ''xmi:type'' = Some ''uml:InstanceSpecification''
                     \<and> map_of (attrs e) ''classifier'' = Some station_classifier_id)
           (descendants doc)"
    if "station_classifier_id \<noteq> [] \<or> lib = From_4_13"
    unfolding general using that by (intro filter_cong refl) auto
  then show ?thesis using general by blast
qed

text \<open>The instances of the document below lie at two depths, between a class and an
  instance of another classifier; they come back in document order.\<close>

theorem get_station_instances_exact_witness:
  "get_station_instances Before_4_13
       (document_of
          [ups1,
           Tag ''packagedElement'' [(''xmi:type'', ''uml:Package'')]
             [station_class, instance_of [(''name'', ''UPS2'')] []],
           Tag ''packagedElement''
             [(''xmi:type'', ''uml:InstanceSpecification''), (''name'', ''UPS3''),
              (''classifier'', ''C2'')] [],
           instance_of [(''name'', ''UPS4'')] [north_gate_slot]])
       ''C1''
     = [ups1, instance_of [(''name'', ''UPS2'')] [],
        instance_of [(''name'', ''UPS4'')] [north_gate_slot]]
   \<and> get_station_instances From_4_13
       (document_of
          [ups1,
           Tag ''packagedElement'' [(''xmi:type'', ''uml:Package'')]
             [station_class, instance_of [(''name'', ''UPS2'')] []],
           Tag ''packagedElement''
             [(''xmi:type'', ''uml:InstanceSpecification''), (''name'', ''UPS3''),
              (''classifier'', ''C2'')] [],
           instance_of [(''name'', ''UPS4'')] [north_gate_slot]])
       ''C1''
     = [ups1, instance_of [(''name'', ''UPS2'')] [],
        instance_of [(''name'', ''UPS4'')] [north_gate_slot]]"
  using get_station_instances_exact[where lib = Before_4_13 and station_classifier_id = "''C1''"
      and doc = "document_of
          [ups1,
           Tag ''packagedElement'' [(''xmi:type'', ''uml:Package'')]
             [station_class, instance_of [(''name'', ''UPS2'')] []],
           Tag ''packagedElement''
             [(''xmi:type'', ''uml:InstanceSpecification''), (''name'', ''UPS3''),
              (''classifier'', ''C2'')] [],
           instance_of [(''name'', ''UPS4'')] [north_gate_slot]]"]
    get_station_instances_exact[where lib = From_4_13 and station_classifier_id = "''C1''"
      and doc = "document_of
          [ups1,
           Tag ''packagedElement'' [(''xmi:type'', ''uml:Package'')]
             [station_class, instance_of [(''name'', ''UPS2'')] []],
           Tag ''packagedElement''
             [(''xmi:type'', ''uml:InstanceSpecification''), (''name'', ''UPS3''),
              (''classifier'', ''C2'')] [],
           instance_of [(''name'', ''UPS4'')] [north_gate_slot]]"]
  by (simp add: example_defs)

section \<open>Record building\<close>

text \<open>
  Claim C1 says that every slot whose \<^verbatim>\<open>definingFeature\<close> identifier matches no
  \<^verbatim>\<open>ownedAttribute\<close> of the document is skipped. With a library older than 4.13
  this fails for the empty identifier: the only \<^verbatim>\<open>ownedAttribute\<close> of the document
  below has no \<^verbatim>\<open>xmi:id\<close>, so no identifier matches it, yet the search for the
  \<^verbatim>\<open>xmi:id\<close> \<^verbatim>\<open>''\<close> returns it and the slot gets an entry. From 4.13 on the same
  slot is skipped.
\<close>

theorem empty_identifier_resolves_counterexample:
  "find_all Before_4_13
       (document_of [class_of [(''xmi:id'', ''C1'')] [Tag ''ownedAttribute'' [(''name'', ''Name'')] []]])
       ''ownedAttribute'' []
     = [Tag ''ownedAttribute'' [(''name'', ''Name'')] []]
   \<and> getitem (Tag ''ownedAttribute'' [(''name'', ''Name'')] []) ''xmi:id''
     = Inl (KeyError ''xmi:id'')
   \<and> fst (print_station_details Before_4_13
          [instance_of [(''name'', ''UPS1'')]
             [Tag ''slot'' [(''definingFeature'', [])] [Tag ''value'' [(''symbol'', ''x'')] []]]]
          (loaded (document_of
             [class_of [(''xmi:id'', ''C1'')] [Tag ''ownedAttribute'' [(''name'', ''Name'')] []]])))
     = Inr [\<lparr>station_name = ''UPS1'',
             attributes = [\<lparr>attribute_name = ''Name'', attribute_value = ''x''\<rparr>]\<rparr>]
   \<and> fst (print_station_details From_4_13
          [instance_of [(''name'', ''UPS1'')]
             [Tag ''slot'' [(''definingFeature'', [])] [Tag ''value'' [(''symbol'', ''x'')] []]]]
          (loaded (document_of
             [class_of [(''xmi:id'', ''C1'')] [Tag ''ownedAttribute'' [(''name'', ''Name'')] []]])))
     = Inr [\<lparr>station_name = ''UPS1'', attributes = []\<rparr>]"
  by (simp add: example_defs stage_defs)

text \<open>
  Claim C1, amended: a slot is skipped when its \<^verbatim>\<open>definingFeature\<close> identifier is
  the \<^verbatim>\<open>xmi:id\<close> of no \<^verbatim>\<open>ownedAttribute\<close> of the document and, should the identifier
  be empty and the library older than 4.13, every \<^verbatim>\<open>ownedAttribute\<close> of the document
  has an \<^verbatim>\<open>xmi:id\<close>. Such a slot contributes no entry and raises no error: the loop
  body returns the record it was given. The other slots of the instance are resolved
  as if the slot were not there: the slot loop gives the same result with and
  without it, and so does the whole record builder when the instance is replaced by
  one with the same name and the same slots but that one.
\<close>

theorem dangling_slot_is_skipped:
  assumes "map_of (attrs slot) ''definingFeature'' = Some d"
    and "\<forall>a \<in> set (descendants (soup w)).
           name a = ''ownedAttribute'' \<longrightarrow>
           map_of (attrs a) ''xmi:id'' \<noteq> Some d
           \<and> (lib = Before_4_13 \<and> d = [] \<longrightarrow> map_of (attrs a) ''xmi:id'' \<noteq> None)"
  shows "slot_body lib (soup w) slot sd = Inr sd
     \<and> slots_loop lib (soup w) (before @ slot # after) sd
         = slots_loop lib (soup w) (before @ after) sd
     \<and> (find_all lib inst ''slot'' [] = before @ slot # after
          \<and> find_all lib inst' ''slot'' [] = before @ after
          \<and> map_of (attrs inst') ''name'' = map_of (attrs inst) ''name'' \<longrightarrow>
        print_station_details lib (pre @ inst # post) w
          = print_station_details lib (pre @ inst' # post) w)"
proof -
  have skip: "slot_body lib (soup w) slot = Inr"
    by (rule ext) (rule slot_body_dangling[OF assms])
  have loop: "slots_loop lib (soup w) (xs @ slot # ys) sd' = slots_loop lib (soup w) (xs @ ys) sd'"
    for xs ys sd'
    by (rule slots_loop_skip[OF skip])
  have "print_station_details lib (pre @ inst # post) w
          = print_station_details lib (pre @ inst' # post) w"
    if "find_all lib inst ''slot'' [] = before @ slot # after"
      "find_all lib inst' ''slot'' [] = before @ after"
      "map_of (attrs inst') ''name'' = map_of (attrs inst) ''name''"
    unfolding print_station_details_def
    by (rule stations_loop_replace) (simp_all add: that loop)
  then show ?thesis using skip loop by simp
qed

theorem dangling_slot_is_skipped_witness:
  "slot_body Before_4_13 example_document dangling_slot (blank ''UPS1'') = Inr (blank ''UPS1'')
   \<and> slots_loop Before_4_13 example_document ([north_gate_slot] @ dangling_slot # []) (blank ''UPS1'')
     = slots_loop Before_4_13 example_document ([north_gate_slot] @ []) (blank ''UPS1'')
   \<and> print_station_details Before_4_13
       ([] @ instance_of [(''name'', ''UPS1'')] [north_gate_slot, dangling_slot] # [])
       (loaded example_document)
     = print_station_details Before_4_13 ([] @ ups1 # []) (loaded example_document)
   \<and> fst (print_station_details Before_4_13 [ups1] (loaded example_document))
     = Inr [\<lparr>station_name = ''UPS1'',
             attributes = [\<lparr>attribute_name = ''Name'', attribute_value = ''North Gate''\<rparr>]\<rparr>]
   \<and> slot_body From_4_13 example_document dangling_slot (blank ''UPS1'') = Inr (blank ''UPS1'')
   \<and> slots_loop From_4_13 example_document ([north_gate_slot] @ dangling_slot # []) (blank ''UPS1'')
     = slots_loop From_4_13 example_document ([north_gate_slot] @ []) (blank ''UPS1'')
   \<and> print_station_details From_4_13
       ([] @ instance_of [(''name'', ''UPS1'')] [north_gate_slot, dangling_slot] # [])
       (loaded example_document)
     = print_station_details From_4_13 ([] @ ups1 # []) (loaded example_document)
   \<and> fst (print_station_details From_4_13 [ups1] (loaded example_document))
     = Inr [\<lparr>station_name = ''UPS1'',
             attributes = [\<lparr>attribute_name = ''Name'', attribute_value = ''North Gate''\<rparr>]\<rparr>]"
  using dangling_slot_is_skipped[where slot = dangling_slot and d = "''A9''"
      and w = "loaded example_document" and lib = Before_4_13 and sd = "blank ''UPS1''"
      and before = "[north_gate_slot]" and after = "[]"
      and inst = "instance_of [(''name'', ''UPS1'')] [north_gate_slot, dangling_slot]"
      and inst' = ups1 and pre = "[]" and post = "[]"]
    dangling_slot_is_skipped[where slot = dangling_slot and d = "''A9''"
      and w = "loaded example_document" and lib = From_4_13 and sd = "blank ''UPS1''"
      and before = "[north_gate_slot]" and after = "[]"
      and inst = "instance_of [(''name'', ''UPS1'')] [north_gate_slot, dangling_slot]"
      and inst' = ups1 and pre = "[]" and post = "[]"]
  by (simp add: example_defs stage_defs)

text \<open>
  Claim C2 says that every slot whose defining feature resolves to a known attribute
  and which has no \<^verbatim>\<open>value\<close> child gets an entry with the sentinel. Two runs show
  otherwise, under either version of the library. In the first the attribute
  \<^verbatim>\<open>A1\<close> is declared without a \<^verbatim>\<open>name\<close>: \<^verbatim>\<open>attribute['name']\<close> raises \<^verbatim>\<open>KeyError\<close>
  and no entry is emitted. In the second the slot has no \<^verbatim>\<open>value\<close> child, but one
  of its children contains a \<^verbatim>\<open>value\<close> element: \<^verbatim>\<open>slot.find('value')\<close> searches all
  descendants, and the entry carries that element's symbol, not the sentinel.
\<close>

theorem sentinel_counterexample:
  "fst (print_station_details Before_4_13
          [instance_of [(''name'', ''UPS1'')] [Tag ''slot'' [(''definingFeature'', ''A1'')] []]]
          (loaded (document_of
             [class_of [(''xmi:id'', ''C1'')] [Tag ''ownedAttribute'' [(''xmi:id'', ''A1'')] []]])))
     = Inl (KeyError ''name'')
   \<and> fst (print_station_details Before_4_13
          [instance_of [(''name'', ''UPS1'')]
             [Tag ''slot'' [(''definingFeature'', ''A1'')]
                [Tag ''ownedComment'' [] [Tag ''value'' [(''symbol'', ''x'')] []]]]]
          (loaded example_document))
     = Inr [\<lparr>station_name = ''UPS1'',
             attributes = [\<lparr>attribute_name = ''Name'', attribute_value = ''x''\<rparr>]\<rparr>]
   \<and> fst (print_station_details From_4_13
          [instance_of [(''name'', ''UPS1'')] [Tag ''slot'' [(''definingFeature'', ''A1'')] []]]
          (loaded (document_of
             [class_of [(''xmi:id'', ''C1'')] [Tag ''ownedAttribute'' [(''xmi:id'', ''A1'')] []]])))
     = Inl (KeyError ''name'')
   \<and> fst (print_station_details From_4_13
          [instance_of [(''name'', ''UPS1'')]
             [Tag ''slot'' [(''definingFeature'', ''A1'')]
                [Tag ''ownedComment'' [] [Tag ''value'' [(''symbol'', ''x'')] []]]]]
          (loaded example_document))
     = Inr [\<lparr>station_name = ''UPS1'',
             attributes = [\<lparr>attribute_name = ''Name'', attribute_value = ''x''\<rparr>]\<rparr>]"
  by (simp add: example_defs stage_defs)

text \<open>
  Claim C2, amended: take a slot with a \<^verbatim>\<open>definingFeature\<close> identifier, and the first
  \<^verbatim>\<open>ownedAttribute\<close> of the document, in document order, that the search matches
  against it: one whose \<^verbatim>\<open>xmi:id\<close> is the identifier or, should the identifier be
  empty and the library older than 4.13, one that has no \<^verbatim>\<open>xmi:id\<close>. When that
  attribute carries a \<^verbatim>\<open>name\<close> and there is no \<^verbatim>\<open>value\<close> element below the slot at
  any depth, the loop body appends exactly the entry with that name and the value
  \<^verbatim>\<open>Aucune valeur\<close>; when the record builder returns, the record of the slot's
  instance contains that entry; and the dictionary written for any entry has the key
  \<^verbatim>\<open>attribute_value\<close>.
\<close>

theorem sentinel_when_no_value:
  assumes "map_of (attrs slot) ''definingFeature'' = Some d"
    and "List.find (\<lambda>e. name e = ''ownedAttribute''
                        \<and> (map_of (attrs e) ''xmi:id'' = Some d
                           \<or> (lib = Before_4_13 \<and> d = [] \<and> map_of (attrs e) ''xmi:id'' = None)))
           (descendants (soup w)) = Some a"
    and "map_of (attrs a) ''name'' = Some n"
    and "\<forall>v \<in> set (descendants slot). name v \<noteq> ''value''"
  shows "slot_body lib (soup w) slot sd =
       Inr (sd\<lparr>attributes := attributes sd @
              [\<lparr>attribute_name = n, attribute_value = ''Aucune valeur''\<rparr>]\<rparr>)
     \<and> (fst (print_station_details lib insts w) = Inr details
          \<and> inst \<in> set insts \<and> slot \<in> set (find_all lib inst ''slot'' []) \<longrightarrow>
        (\<exists>r \<in> set details. map_of (attrs inst) ''name'' = Some (station_name r)
           \<and> \<lparr>attribute_name = n, attribute_value = ''Aucune valeur''\<rparr> \<in> set (attributes r)))
     \<and> (\<exists>members. entry_json e = JObject members
           \<and> map_of members ''attribute_value'' = Some (JString (attribute_value e)))"
proof -
  have body: "slot_body lib (soup w) slot sd' =
       Inr (sd'\<lparr>attributes := attributes sd' @
              [\<lparr>attribute_name = n, attribute_value = ''Aucune valeur''\<rparr>]\<rparr>)" for sd'
    by (rule slot_body_no_value[OF assms])
  have built: "\<exists>r \<in> set details. map_of (attrs inst) ''name'' = Some (station_name r)
           \<and> \<lparr>attribute_name = n, attribute_value = ''Aucune valeur''\<rparr> \<in> set (attributes r)"
    if "fst (print_station_details lib insts w) = Inr details" "inst \<in> set insts"
      "slot \<in> set (find_all lib inst ''slot'' [])"
  proof -
    from stations_loop_records[of lib insts "[]" w details] that(1,2)
    obtain r where r: "r \<in> set details"
      "slots_loop lib (soup w) (find_all lib inst ''slot'' [])
             \<lparr>station_name = station_name r, attributes = []\<rparr> = Inr r"
      "map_of (attrs inst) ''name'' = Some (station_name r)"
      by (auto simp: print_station_details_def)
    have "\<lparr>attribute_name = n, attribute_value = ''Aucune valeur''\<rparr> \<in> set (attributes r)"
      by (rule slots_loop_keeps_entry[OF r(2) that(3) body[of "blank []"]])
         (simp add: blank_def)
    with r show ?thesis by blast
  qed
  have key: "\<exists>members. entry_json e = JObject members
           \<and> map_of members ''attribute_value'' = Some (JString (attribute_value e))"
    by (simp add: entry_json_def)
  show ?thesis using body built key by blast
qed

theorem sentinel_when_no_value_witness:
  "slot_body Before_4_13 example_document (Tag ''slot'' [(''definingFeature'', ''A1'')] []) (blank ''UPS1'')
     = Inr \<lparr>station_name = ''UPS1'',
            attributes = [\<lparr>attribute_name = ''Name'', attribute_value = ''Aucune valeur''\<rparr>]\<rparr>
   \<and> fst (print_station_details Before_4_13
          [instance_of [(''name'', ''UPS1'')] [Tag ''slot'' [(''definingFeature'', ''A1'')] []]]
          (loaded example_document))
     = Inr [\<lparr>station_name = ''UPS1'',
             attributes = [\<lparr>attribute_name = ''Name'', attribute_value = ''Aucune valeur''\<rparr>]\<rparr>]
   \<and> slot_body From_4_13 example_document (Tag ''slot'' [(''definingFeature'', ''A1'')] []) (blank ''UPS1'')
     = Inr \<lparr>station_name = ''UPS1'',
            attributes = [\<lparr>attribute_name = ''Name'', attribute_value = ''Aucune valeur''\<rparr>]\<rparr>
   \<and> fst (print_station_details From_4_13
          [instance_of [(''name'', ''UPS1'')] [Tag ''slot'' [(''definingFeature'', ''A1'')] []]]
          (loaded example_document))
     = Inr [\<lparr>station_name = ''UPS1'',
             attributes = [\<lparr>attribute_name = ''Name'', attribute_value = ''Aucune valeur''\<rparr>]\<rparr>]"
  using sentinel_when_no_value[where slot = "Tag ''slot'' [(''definingFeature'', ''A1'')] []"
      and d = "''A1''" and w = "loaded example_document" and a = name_attribute
      and n = "''Name''" and sd = "blank ''UPS1''" and lib = Before_4_13]
    sentinel_when_no_value[where slot = "Tag ''slot'' [(''definingFeature'', ''A1'')] []"
      and d = "''A1''" and w = "loaded example_document" and a = name_attribute
      and n = "''Name''" and sd = "blank ''UPS1''" and lib = From_4_13]
  by (simp add: example_defs stage_defs)




section \<open>The pipeline\<close>



text \<open>
  Claim C8 says that every run reads and parses the input file exactly once. The run
  on the example document opens the file in \<^verbatim>\<open>get_station_id\<close>, parses it, and
  opens and parses it again in \<^verbatim>\<open>main\<close> before the instances are searched.
\<close>

theorem input_read_twice_counterexample:
  "io_log (snd (main Before_4_13 (parse_as example_document) example_world)) =
     [OpenRead ''UPS1.xmi'', ParseXML, OpenRead ''UPS1.xmi'', ParseXML,
      OpenWrite ''station_details.json'']
   \<and> io_log (snd (main From_4_13 (parse_as example_document) example_world)) =
     [OpenRead ''UPS1.xmi'', ParseXML, OpenRead ''UPS1.xmi'', ParseXML,
      OpenWrite ''station_details.json'']"
  by (simp add: example_defs stage_defs)

text \<open>
  Claim C8, amended: every run with a readable input file opens and parses it once,
  in class location. The file is opened and parsed a second time, by \<^verbatim>\<open>main\<close>
  before instance resolution, exactly when the class was found with a non-empty
  identifier and a non-empty attribute list; after that the only file operation left
  is the write of the output file. The input is never read a third time.
\<close>

theorem main_input_reads:
  assumes "map_of (files w) file_path = Some content"
  shows "\<exists>rest. io_log (snd (main lib parse w)) = io_log w @ OpenRead file_path # ParseXML # rest
      \<and> (rest = [] \<or> rest = [OpenRead file_path, ParseXML]
           \<or> rest = [OpenRead file_path, ParseXML, OpenWrite output_file])
      \<and> ((\<exists>station_id station ids.
             fst (get_station_id lib parse file_path w) = Inr (Some station_id, Some station)
             \<and> station_id \<noteq> [] \<and> get_station_attributes lib station = Inr ids \<and> ids \<noteq> [])
           \<longleftrightarrow> rest \<noteq> [])"
proof -
  let ?w1 = "w\<lparr>io_log := io_log w @ [OpenRead file_path, ParseXML], soup := parse content\<rparr>"
  have g: "get_station_id lib parse file_path w = (fst (get_station_id lib parse file_path w), ?w1)"
    by (simp add: get_station_id_present[OF assms])
  have r: "read_file file_path w3
             = (Inr content, w3\<lparr>io_log := io_log w3 @ [OpenRead file_path]\<rparr>)"
    if "files w3 = files w" for w3
    by (rule read_file_present) (simp add: that assms)
  note some = get_station_id_element[OF assms]
  show ?thesis
    unfolding main_def
    apply (subst g)
    apply (simp add: Let_def r BeautifulSoup_def split: sum.splits option.splits prod.splits)
    apply (auto dest: print_station_details_fields some)
    done
qed

theorem main_input_reads_witness:
  "(\<exists>rest. io_log (snd (main Before_4_13 (parse_as (document_of [ups1])) example_world))
       = io_log example_world @ OpenRead file_path # ParseXML # rest
     \<and> rest = [])
   \<and> (\<exists>rest. io_log (snd (main From_4_13 (parse_as example_document) example_world))
       = io_log example_world @ OpenRead file_path # ParseXML # rest
     \<and> rest = [OpenRead file_path, ParseXML, OpenWrite output_file])"
  using main_input_reads[where w = example_world and content = "''<xmi:XMI/>''"
      and parse = "parse_as (document_of [ups1])" and lib = Before_4_13]
    main_input_reads[where w = example_world and content = "''<xmi:XMI/>''"
      and parse = "parse_as example_document" and lib = From_4_13]
  by (simp add: example_defs stage_defs)

text \<open>
  Claim C9: no stage changes the parsed document. The stages that run in the state
  leave the document object as the parser built it: after \<^verbatim>\<open>get_station_id\<close> it is
  the parse of the file content (the state is untouched when the file is missing),
  \<^verbatim>\<open>print_station_details\<close> returns it as it received it, and at the end of any
  run of \<^verbatim>\<open>main\<close>, through attribute enumeration, instance resolution and record
  building, it is still the parse of the file content. \<^verbatim>\<open>get_station_attributes\<close>
  and \<^verbatim>\<open>get_station_instances\<close> are functions of the element they are given and
  return no state.
\<close>

theorem document_unchanged:
  "soup (snd (get_station_id lib parse fp w))
     = (case map_of (files w) fp of None \<Rightarrow> soup w | Some content \<Rightarrow> parse content)
   \<and> soup (snd (print_station_details lib station_instances w)) = soup w
   \<and> soup (snd (main lib parse w))
     = (case map_of (files w) file_path of None \<Rightarrow> soup w | Some content \<Rightarrow> parse content)"
proof -
  have stage1: "soup (snd (get_station_id lib parse fp w))
     = (case map_of (files w) fp of None \<Rightarrow> soup w | Some content \<Rightarrow> parse content)"
    by (simp add: get_station_id_absent get_station_id_present split: option.splits)
  have stage4: "soup (snd (print_station_details lib station_instances w)) = soup w"
    by (simp add: print_station_details_frame)
  have run: "soup (snd (main lib parse w))
     = (case map_of (files w) file_path of None \<Rightarrow> soup w | Some content \<Rightarrow> parse content)"
  proof (cases "map_of (files w) file_path")
    case None
    then show ?thesis by (simp add: main_def get_station_id_absent)
  next
    case (Some content)
    let ?w1 = "w\<lparr>io_log := io_log w @ [OpenRead file_path, ParseXML], soup := parse content\<rparr>"
    have g: "get_station_id lib parse file_path w = (fst (get_station_id lib parse file_path w), ?w1)"
      by (simp add: get_station_id_present[OF Some])
    have r: "read_file file_path w3
               = (Inr content, w3\<lparr>io_log := io_log w3 @ [OpenRead file_path]\<rparr>)"
      if "files w3 = files w" for w3
      by (rule read_file_present) (simp add: that Some)
    show ?thesis
      unfolding main_def
      apply (subst g)
      apply (simp add: Some Let_def r BeautifulSoup_def
          split: sum.splits option.splits prod.splits)
      apply (auto dest: print_station_details_fields)
      done
  qed
  show ?thesis using stage1 stage4 run by simp
qed

theorem document_unchanged_witness:
  "soup (snd (main Before_4_13 (parse_as example_document) example_world)) = example_document
   \<and> soup (snd (print_station_details Before_4_13 [ups1] (loaded example_document))) = example_document
   \<and> soup (snd (main From_4_13 (parse_as example_document) example_world)) = example_document
   \<and> soup (snd (print_station_details From_4_13 [ups1] (loaded example_document))) = example_document"
  using document_unchanged[where parse = "parse_as example_document" and fp = file_path
      and w = example_world and station_instances = "[ups1]" and lib = Before_4_13]
    document_unchanged[where parse = "parse_as example_document" and fp = file_path
      and w = "loaded example_document" and station_instances = "[ups1]" and lib = Before_4_13]
    document_unchanged[where parse = "parse_as example_document" and fp = file_path
      and w = example_world and station_instances = "[ups1]" and lib = From_4_13]
    document_unchanged[where parse = "parse_as example_document" and fp = file_path
      and w = "loaded example_document" and station_instances = "[ups1]" and lib = From_4_13]
  by (simp add: example_defs stage_defs)

section \<open>Serialisation\<close>

subsection \<open>Strings\<close>

lemma skip_whitespace_spaces:
  "skip_whitespace (replicate k CHR '' '' @ s) = skip_whitespace s"
  by (induction k) (simp_all add: whitespace_def)

lemma skip_whitespace_newline_indent:
  "skip_whitespace (newline_indent l @ s) = skip_whitespace s"
  by (simp add: newline_indent_def whitespace_def skip_whitespace_spaces)

lemma hex_value_hex_digit:
  assumes "k < 16"
  shows "hex_value (hex_digit k) = Some k"
proof -
  from assms have "k \<in> {0, 1, 2, 3, 4, 5, 6, 7, 8, 9, 10, 11, 12, 13, 14, 15}"
    by simp presburger
  then show ?thesis
    by (elim insertE emptyE) (simp_all add: hex_digit_def hex_value_def)
qed

lemma hex_value_zero: "hex_value CHR ''0'' = Some 0"
  by (simp add: hex_value_def)

lemma decode_control:
  assumes "n < 0x20"
  shows "decode_uXXXX CHR ''0'' CHR ''0'' (hex_digit (n div 16)) (hex_digit n) = Some n"
proof -
  have 1: "hex_value (hex_digit (n div 16)) = Some (n div 16)"
    using assms by (intro hex_value_hex_digit) simp
  have "hex_digit n = hex_digit (n mod 16)"
    by (simp add: hex_digit_def)
  then have 2: "hex_value (hex_digit n) = Some (n mod 16)"
    by (simp add: hex_value_hex_digit)
  show ?thesis
    by (simp add: decode_uXXXX_def hex_value_zero 1 2)
qed

lemma scanstring_escape_char:
  "scanstring (escape_char c @ t) =
     (case scanstring t of None \<Rightarrow> None | Some (s, r) \<Rightarrow> Some (c # s, r))"
proof -
  consider (special) "c \<in> {CHR 0x22, CHR 0x5C, CHR 0x08, CHR 0x0C, CHR 0x0A, CHR 0x0D, CHR 0x09}"
    | (control) "c \<notin> {CHR 0x22, CHR 0x5C, CHR 0x08, CHR 0x0C, CHR 0x0A, CHR 0x0D, CHR 0x09}"
        "(of_char c :: nat) < 0x20"
    | (plain) "c \<notin> {CHR 0x22, CHR 0x5C, CHR 0x08, CHR 0x0C, CHR 0x0A, CHR 0x0D, CHR 0x09}"
        "\<not> (of_char c :: nat) < 0x20"
    by blast
  then show ?thesis
  proof cases
    case special
    then show ?thesis
      by (elim insertE emptyE; hypsubst) (simp_all add: escape_char_def backslash_def)
  next
    case control
    then show ?thesis
      by (simp add: escape_char_def decode_control utf8_def split: option.splits)
  next
    case plain
    then show ?thesis
      by (simp add: escape_char_def)
  qed
qed

lemma scanstring_escaped:
  "scanstring (concat (map escape_char s) @ CHR 0x22 # rest) = Some (s, rest)"
  by (induction s) (simp_all add: scanstring_escape_char)

lemma scanstring_encode_basestring:
  "scanstring (tl (encode_basestring s) @ rest) = Some (s, rest)"
  using scanstring_escaped[of s rest] by (simp add: encode_basestring_def)

subsection \<open>Values\<close>

lemma encode_basestring_Cons:
  "encode_basestring s = CHR 0x22 # tl (encode_basestring s)"
  by (simp add: encode_basestring_def)

lemma length_encode_basestring: "2 \<le> length (encode_basestring s)"
  by (simp add: encode_basestring_def)

lemma length_newline_indent: "0 < length (newline_indent l)"
  by (simp add: newline_indent_def)

lemma opens_value_iterencode: "opens_value (iterencode l v)"
proof (cases v)
  case (JString s)
  then show ?thesis by (simp add: opens_value_def encode_basestring_def)
next
  case (JArray vs)
  then show ?thesis by (cases vs) (simp_all add: opens_value_def)
next
  case (JObject kvs)
  then show ?thesis by (cases kvs) (simp_all add: opens_value_def)
qed

lemma opens_value_append: "opens_value s \<Longrightarrow> opens_value (s @ t)"
  by (auto simp: opens_value_def)

lemma opens_value_iterencode_list: "vs \<noteq> [] \<Longrightarrow> opens_value (iterencode_list l vs)"
proof (cases vs)
  case Nil
  assume "vs \<noteq> []" with Nil show ?thesis by simp
next
  case (Cons v ws)
  then show ?thesis
    using opens_value_iterencode[of l v]
    by (cases ws) (simp_all add: opens_value_append)
qed

lemma skip_whitespace_opens: "opens_value s \<Longrightarrow> skip_whitespace s = s"
  by (auto simp: opens_value_def whitespace_def)

lemma scan_array_step:
  assumes "scan_once n s = Some (v, r)" "skip_whitespace r = d # ds"
  shows "scan_array (Suc n) s =
     (if d = CHR '']'' then Some ([v], ds)
      else if d = CHR '','' then
        (case scan_array n (skip_whitespace ds) of
                    None \<Rightarrow> None
                  | Some (vs, r') \<Rightarrow> Some (v # vs, r'))
      else None)"
  using assms by simp

lemma scan_once_array:
  assumes "skip_whitespace cs = s" "opens_value s"
  shows "scan_once (Suc n) (CHR ''['' # cs) =
     (case scan_array n s of None \<Rightarrow> None | Some (vs, r) \<Rightarrow> Some (JArray vs, r))"
  using assms by (auto simp: opens_value_def)

lemma scan_once_object:
  assumes "skip_whitespace cs = s" "s = CHR 0x22 # t"
  shows "scan_once (Suc n) (CHR ''{'' # cs) =
     (case scan_object n s of None \<Rightarrow> None | Some (kvs, r) \<Rightarrow> Some (JObject kvs, r))"
  using assms by auto

lemma scan_object_step:
  assumes "scanstring s = Some (k, r)" "skip_whitespace r = CHR '':'' # r1"
    "scan_once n (skip_whitespace r1) = Some (v, r2)" "skip_whitespace r2 = d # ds"
  shows "scan_object (Suc n) (CHR 0x22 # s) =
     (if d = CHR ''}'' then Some ([(k, v)], ds)
      else if d = CHR '','' then
        (case scan_object n (skip_whitespace ds) of
           None \<Rightarrow> None
         | Some (kvs, r') \<Rightarrow> Some ((k, v) # kvs, r'))
      else None)"
  using assms by simp

lemma roundtrip_values:
  "(\<forall>n rest. length (iterencode level v) \<le> n \<longrightarrow>
        scan_once n (iterencode level v @ rest) = Some (v, rest))"
  "(vs \<noteq> [] \<longrightarrow> (\<forall>n l rest. length (iterencode_list level vs) < n \<longrightarrow>
        scan_array n (iterencode_list level vs @ newline_indent l @ CHR '']'' # rest)
          = Some (vs, rest)))"
  "(kvs \<noteq> [] \<longrightarrow> (\<forall>n l rest. length (iterencode_dict level kvs) < n \<longrightarrow>
        scan_object n (iterencode_dict level kvs @ newline_indent l @ CHR ''}'' # rest)
          = Some (kvs, rest)))"
proof (induction level v and level vs and level kvs
    rule: iterencode_iterencode_list_iterencode_dict.induct)
  case (1 level s)
  show ?case
  proof (intro allI impI)
    fix n rest
    assume "length (iterencode level (JString s)) \<le> n"
    then obtain m where n: "n = Suc m"
      using length_encode_basestring[of s] by (cases n) auto
    show "scan_once n (iterencode level (JString s) @ rest) = Some (JString s, rest)"
      unfolding n
      by (subst iterencode.simps, subst encode_basestring_Cons)
         (simp add: scanstring_encode_basestring)
  qed
next
  case (2 level)
  show ?case
  proof (intro allI impI)
    fix n rest
    assume "length (iterencode level (JArray [])) \<le> n"
    then obtain m where n: "n = Suc m" by (cases n) auto
    show "scan_once n (iterencode level (JArray []) @ rest) = Some (JArray [], rest)"
      unfolding n by (simp add: whitespace_def)
  qed
next
  case (3 level v vs)
  show ?case
  proof (intro allI impI)
    fix n rest
    let ?list = "iterencode_list (Suc level) (v # vs)"
    assume len: "length (iterencode level (JArray (v # vs))) \<le> n"
    then obtain m where n: "n = Suc m" by (cases n) auto
    from len n have m: "length ?list < m"
      using length_newline_indent[of "Suc level"] length_newline_indent[of level] by simp
    have o: "opens_value (?list @ newline_indent level @ CHR '']'' # rest)"
      by (intro opens_value_append opens_value_iterencode_list) simp
    have "scan_once (Suc m)
            (CHR ''['' # newline_indent (Suc level) @ ?list @ newline_indent level @ CHR '']'' # rest)
          = (case scan_array m (?list @ newline_indent level @ CHR '']'' # rest) of
               None \<Rightarrow> None | Some (vs, r) \<Rightarrow> Some (JArray vs, r))"
      by (rule scan_once_array[OF _ o])
         (simp add: skip_whitespace_newline_indent skip_whitespace_opens[OF o])
    also have "\<dots> = Some (JArray (v # vs), rest)"
      using 3 m by simp
    finally show "scan_once n (iterencode level (JArray (v # vs)) @ rest)
        = Some (JArray (v # vs), rest)"
      unfolding n by simp
  qed
next
  case (4 level)
  show ?case
  proof (intro allI impI)
    fix n rest
    assume "length (iterencode level (JObject [])) \<le> n"
    then obtain m where n: "n = Suc m" by (cases n) auto
    show "scan_once n (iterencode level (JObject []) @ rest) = Some (JObject [], rest)"
      unfolding n by (simp add: whitespace_def)
  qed
next
  case (5 level kv kvs)
  show ?case
  proof (intro allI impI)
    fix n rest
    let ?dict = "iterencode_dict (Suc level) (kv # kvs)"
    assume len: "length (iterencode level (JObject (kv # kvs))) \<le> n"
    then obtain m where n: "n = Suc m" by (cases n) auto
    from len n have m: "length ?dict < m"
      using length_newline_indent[of "Suc level"] length_newline_indent[of level] by simp
    obtain t where t: "?dict = CHR 0x22 # t"
      by (cases kv; cases kvs) (simp_all add: encode_basestring_def)
    have "scan_once (Suc m)
            (CHR ''{'' # newline_indent (Suc level) @ ?dict @ newline_indent level @ CHR ''}'' # rest)
          = (case scan_object m (?dict @ newline_indent level @ CHR ''}'' # rest) of
               None \<Rightarrow> None | Some (kvs, r) \<Rightarrow> Some (JObject kvs, r))"
      by (rule scan_once_object[where t = "t @ newline_indent level @ CHR ''}'' # rest"])
         (simp_all add: skip_whitespace_newline_indent t whitespace_def)
    also have "\<dots> = Some (JObject (kv # kvs), rest)"
      using 5 m by simp
    finally show "scan_once n (iterencode level (JObject (kv # kvs)) @ rest)
        = Some (JObject (kv # kvs), rest)"
      unfolding n by simp
  qed
next
  case (6 level)
  show ?case by simp
next
  case (7 level v)
  show ?case
  proof (intro allI impI)
    fix n l rest
    assume "length (iterencode_list level [v]) < n"
    then obtain m where n: "n = Suc m" and m: "length (iterencode level v) \<le> m"
      by (cases n) auto
    from 7 m have 1: "scan_once m (iterencode level v @ newline_indent l @ CHR '']'' # rest)
        = Some (v, newline_indent l @ CHR '']'' # rest)"
      by blast
    have 2: "skip_whitespace (newline_indent l @ CHR '']'' # rest) = CHR '']'' # rest"
      by (simp add: skip_whitespace_newline_indent whitespace_def)
    show "scan_array n (iterencode_list level [v] @ newline_indent l @ CHR '']'' # rest)
        = Some ([v], rest)"
      unfolding n using scan_array_step[OF 1 2] by simp
  qed
next
  case (8 level v w vs)
  show ?case
  proof (intro allI impI)
    fix n l rest
    let ?tail = "iterencode_list level (w # vs) @ newline_indent l @ CHR '']'' # rest"
    assume len: "length (iterencode_list level (v # w # vs)) < n"
    then obtain m where n: "n = Suc m" by (cases n) auto
    from len n have mv: "length (iterencode level v) \<le> m"
      and mt: "length (iterencode_list level (w # vs)) < m"
      using length_newline_indent[of level] by simp_all
    from 8(1) mv have 1: "scan_once m (iterencode level v @ CHR '','' # newline_indent level @ ?tail)
        = Some (v, CHR '','' # newline_indent level @ ?tail)"
      by blast
    have 2: "skip_whitespace (CHR '','' # newline_indent level @ ?tail)
        = CHR '','' # newline_indent level @ ?tail"
      by (simp add: whitespace_def)
    have o: "opens_value ?tail"
      by (intro opens_value_append opens_value_iterencode_list) simp
    have 3: "skip_whitespace (newline_indent level @ ?tail) = ?tail"
      by (simp add: skip_whitespace_newline_indent skip_whitespace_opens[OF o])
    from 8(2) mt have 4: "scan_array m ?tail = Some (w # vs, rest)"
      by simp
    show "scan_array n (iterencode_list level (v # w # vs) @ newline_indent l @ CHR '']'' # rest)
        = Some (v # w # vs, rest)"
      unfolding n using scan_array_step[OF 1 2] 3 4 by simp
  qed
next
  case (9 level)
  show ?case by simp
next
  case (10 level k v)
  show ?case
  proof (intro allI impI)
    fix n l rest
    let ?after = "newline_indent l @ CHR ''}'' # rest"
    assume len: "length (iterencode_dict level [(k, v)]) < n"
    then obtain m where n: "n = Suc m" by (cases n) auto
    from len n have mv: "length (iterencode level v) \<le> m" by simp
    have 1: "scanstring (tl (encode_basestring k) @ CHR '':'' # CHR '' '' # iterencode level v @ ?after)
        = Some (k, CHR '':'' # CHR '' '' # iterencode level v @ ?after)"
      by (rule scanstring_encode_basestring)
    have 2: "skip_whitespace (CHR '':'' # CHR '' '' # iterencode level v @ ?after)
        = CHR '':'' # CHR '' '' # iterencode level v @ ?after"
      by (simp add: whitespace_def)
    have o: "opens_value (iterencode level v @ ?after)"
      by (intro opens_value_append opens_value_iterencode)
    have 3: "skip_whitespace (CHR '' '' # iterencode level v @ ?after) = iterencode level v @ ?after"
      by (simp add: whitespace_def skip_whitespace_opens[OF o])
    from 10 mv have 4: "scan_once m (iterencode level v @ ?after) = Some (v, ?after)"
      by blast
    have 5: "skip_whitespace ?after = CHR ''}'' # rest"
      by (simp add: skip_whitespace_newline_indent whitespace_def)
    have "scan_object (Suc m)
            (CHR 0x22 # tl (encode_basestring k) @ CHR '':'' # CHR '' '' # iterencode level v @ ?after)
          = Some ([(k, v)], rest)"
      using scan_object_step[OF 1 2, of m v ?after "CHR ''}''" rest] 3 4 5 by simp
    then show "scan_object n (iterencode_dict level [(k, v)] @ ?after) = Some ([(k, v)], rest)"
      unfolding n by (subst iterencode_dict.simps, subst encode_basestring_Cons) simp
  qed
next
  case (11 level k v kv kvs)
  show ?case
  proof (intro allI impI)
    fix n l rest
    let ?tail = "iterencode_dict level (kv # kvs) @ newline_indent l @ CHR ''}'' # rest"
    let ?after = "CHR '','' # newline_indent level @ ?tail"
    assume len: "length (iterencode_dict level ((k, v) # kv # kvs)) < n"
    then obtain m where n: "n = Suc m" by (cases n) auto
    from len n have mv: "length (iterencode level v) \<le> m"
      and mt: "length (iterencode_dict level (kv # kvs)) < m"
      using length_newline_indent[of level] by simp_all
    have 1: "scanstring (tl (encode_basestring k) @ CHR '':'' # CHR '' '' # iterencode level v @ ?after)
        = Some (k, CHR '':'' # CHR '' '' # iterencode level v @ ?after)"
      by (rule scanstring_encode_basestring)
    have 2: "skip_whitespace (CHR '':'' # CHR '' '' # iterencode level v @ ?after)
        = CHR '':'' # CHR '' '' # iterencode level v @ ?after"
      by (simp add: whitespace_def)
    have o: "opens_value (iterencode level v @ ?after)"
      by (intro opens_value_append opens_value_iterencode)
    have 3: "skip_whitespace (CHR '' '' # iterencode level v @ ?after) = iterencode level v @ ?after"
      by (simp add: whitespace_def skip_whitespace_opens[OF o])
    from 11(1) mv have 4: "scan_once m (iterencode level v @ ?after) = Some (v, ?after)"
      by blast
    have 5: "skip_whitespace ?after = ?after"
      by (simp add: whitespace_def)
    obtain t where t: "iterencode_dict level (kv # kvs) = CHR 0x22 # t"
      by (cases kv; cases kvs) (simp_all add: encode_basestring_def)
    have 6: "skip_whitespace (newline_indent level @ ?tail) = ?tail"
      by (simp add: skip_whitespace_newline_indent t whitespace_def)
    from 11(2) mt have 7: "scan_object m ?tail = Some (kv # kvs, rest)"
      by simp
    have "scan_object (Suc m)
            (CHR 0x22 # tl (encode_basestring k) @ CHR '':'' # CHR '' '' # iterencode level v @ ?after)
          = Some ((k, v) # kv # kvs, rest)"
      using scan_object_step[OF 1 2, of m v ?after "CHR '',''" "newline_indent level @ ?tail"]
        3 4 5 6 7 by simp
    then show "scan_object n (iterencode_dict level ((k, v) # kv # kvs) @ newline_indent l @ CHR ''}'' # rest)
        = Some ((k, v) # kv # kvs, rest)"
      unfolding n by (subst iterencode_dict.simps, subst encode_basestring_Cons) simp
  qed
qed

lemma json_loads_json_dump: "json_loads (json_dump obj) = Some obj"
proof -
  have "skip_whitespace (iterencode 0 obj) = iterencode 0 obj"
    by (rule skip_whitespace_opens[OF opens_value_iterencode])
  moreover have "scan_once (length (iterencode 0 obj)) (iterencode 0 obj @ []) = Some (obj, [])"
    using roundtrip_values(1)[of 0 obj] by blast
  ultimately show ?thesis
    by (simp add: json_loads_def json_dump_def)
qed

subsection \<open>Records and their dictionaries\<close>

lemma entry_json_inject: "entry_json e = entry_json e' \<Longrightarrow> e = e'"
  by (cases e; cases e') (simp add: entry_json_def)

lemma station_json_inject:
  assumes "station_json r = station_json r'"
  shows "r = r'"
proof -
  have "inj entry_json"
    by (rule injI) (rule entry_json_inject)
  then have "attributes r = attributes r'"
    using assms by (simp add: station_json_def inj_map_eq_map)
  moreover have "station_name r = station_name r'"
    using assms by (simp add: station_json_def)
  ultimately show ?thesis by simp
qed

lemma details_json_inject:
  assumes "details_json rs = details_json rs'"
  shows "rs = rs'"
proof -
  have "inj station_json"
    by (rule injI) (rule station_json_inject)
  then show ?thesis
    using assms by (simp add: details_json_def inj_map_eq_map)
qed

lemma saved_text:
  "map_of (files (save_station_details_to_json station_details out w)) out
     = Some (json_dump (details_json station_details))"
  by (simp add: save_station_details_to_json_def write_file_def py_print_def update_conv')

lemma replicate_numeral_unfold:
  "replicate (numeral k) x = x # replicate (pred_numeral k) x"
  by (simp add: numeral_eq_Suc)

lemma escape_char_non_ascii:
  assumes "0x80 \<le> (of_char c :: nat)"
  shows "escape_char c = [c]"
proof -
  have differs: "c \<noteq> d" if "(of_char d :: nat) < 0x80" for d
  proof
    assume "c = d"
    with assms that show False by simp
  qed
  have 1: "c \<noteq> CHR 0x22" by (rule differs) simp
  have 2: "c \<noteq> CHR 0x5C" by (rule differs) simp
  have 3: "c \<noteq> CHR 0x08" by (rule differs) simp
  have 4: "c \<noteq> CHR 0x0C" by (rule differs) simp
  have 5: "c \<noteq> CHR 0x0A" by (rule differs) simp
  have 6: "c \<noteq> CHR 0x0D" by (rule differs) simp
  have 7: "c \<noteq> CHR 0x09" by (rule differs) simp
  have 8: "\<not> (of_char c :: nat) < 0x20" using assms by simp
  show ?thesis
    unfolding escape_char_def by (simp only: 1 2 3 4 5 6 7 8 if_False)
qed

subsection \<open>The round trip\<close>

text \<open>
  Claim C7: for every record list (those the record builder returns among them),
  \<^verbatim>\<open>save_station_details_to_json\<close> leaves in the output file a text that the JSON
  decoder parses to the list of dictionaries of those records, and two record lists
  with the same parsed structure are equal. A byte of a non-ASCII character (UTF-8
  uses the bytes from \<^verbatim>\<open>0x80\<close> up for them) is written as it is, never as an
  escape. A non-empty array or object puts every item on a line of its own, after
  four spaces per nesting level, and closes on a line indented as the one it opened
  on.
\<close>

theorem json_round_trip:
  "(case map_of (files (save_station_details_to_json station_details out w)) out of
      None \<Rightarrow> None
    | Some text \<Rightarrow> json_loads text) = Some (details_json station_details)
   \<and> (details_json station_details = details_json other \<longrightarrow> station_details = other)
   \<and> (0x80 \<le> (of_char c :: nat) \<longrightarrow> escape_char c = [c])
   \<and> iterencode level (JArray (v # vs)) =
       ''['' @ CHR 0x0A # replicate (4 * Suc level) CHR '' '' @ iterencode_list (Suc level) (v # vs)
         @ CHR 0x0A # replicate (4 * level) CHR '' '' @ '']''
   \<and> iterencode level (JObject (kv # kvs)) =
       ''{'' @ CHR 0x0A # replicate (4 * Suc level) CHR '' '' @ iterencode_dict (Suc level) (kv # kvs)
         @ CHR 0x0A # replicate (4 * level) CHR '' '' @ ''}''
   \<and> iterencode_list level (v # v' # vs) =
       iterencode level v @ '','' @ CHR 0x0A # replicate (4 * level) CHR '' ''
         @ iterencode_list level (v' # vs)"
proof (intro conjI)
  show "(case map_of (files (save_station_details_to_json station_details out w)) out of
      None \<Rightarrow> None
    | Some text \<Rightarrow> json_loads text) = Some (details_json station_details)"
    by (simp only: saved_text option.case json_loads_json_dump)
  show "details_json station_details = details_json other \<longrightarrow> station_details = other"
    by (rule impI) (rule details_json_inject)
  show "0x80 \<le> (of_char c :: nat) \<longrightarrow> escape_char c = [c]"
    by (rule impI) (rule escape_char_non_ascii)
  show "iterencode level (JArray (v # vs)) =
       ''['' @ CHR 0x0A # replicate (4 * Suc level) CHR '' '' @ iterencode_list (Suc level) (v # vs)
         @ CHR 0x0A # replicate (4 * level) CHR '' '' @ '']''"
    by (simp only: iterencode.simps newline_indent_def append_Cons append_Nil)
  show "iterencode level (JObject (kv # kvs)) =
       ''{'' @ CHR 0x0A # replicate (4 * Suc level) CHR '' '' @ iterencode_dict (Suc level) (kv # kvs)
         @ CHR 0x0A # replicate (4 * level) CHR '' '' @ ''}''"
    by (simp only: iterencode.simps newline_indent_def append_Cons append_Nil)
  show "iterencode_list level (v # v' # vs) =
       iterencode level v @ '','' @ CHR 0x0A # replicate (4 * level) CHR '' ''
         @ iterencode_list level (v' # vs)"
    by (simp only: iterencode_list.simps newline_indent_def append_Cons append_Nil)
qed

theorem json_round_trip_witness:
  "(case map_of (files (save_station_details_to_json [cafe] output_file (loaded example_document)))
           output_file of
      None \<Rightarrow> None
    | Some text \<Rightarrow> json_loads text) = Some (details_json [cafe])
   \<and> escape_char (CHR 0xC3) = [CHR 0xC3]
   \<and> json_dump (details_json [cafe]) =
       ''['' @ [CHR 0x0A]
       @ ''    {'' @ [CHR 0x0A]
       @ ''        '' @ quoted ''station_name'' @ '': '' @ quoted ''UPS1'' @ '','' @ [CHR 0x0A]
       @ ''        '' @ quoted ''attributes'' @ '': ['' @ [CHR 0x0A]
       @ ''            {'' @ [CHR 0x0A]
       @ ''                '' @ quoted ''attribute_name'' @ '': '' @ quoted ''Name'' @ '',''
       @ [CHR 0x0A]
       @ ''                '' @ quoted ''attribute_value'' @ '': ''
       @ quoted (''Caf'' @ [CHR 0xC3, CHR 0xA9]) @ [CHR 0x0A]
       @ ''            }'' @ [CHR 0x0A]
       @ ''        ]'' @ [CHR 0x0A]
       @ ''    }'' @ [CHR 0x0A]
       @ '']''"
proof -
  note here = json_round_trip[where station_details = "[cafe]" and out = output_file
      and w = "loaded example_document" and other = "[cafe]" and c = "CHR 0xC3"
      and level = 0 and v = "JString []" and vs = "[]" and kv = "([], JString [])"
      and kvs = "[]" and v' = "JString []"]
  have parsed: "(case map_of (files (save_station_details_to_json [cafe] output_file
                    (loaded example_document))) output_file of
      None \<Rightarrow> None
    | Some text \<Rightarrow> json_loads text) = Some (details_json [cafe])"
    by (rule conjunct1[OF here])
  have "0x80 \<le> (of_char (CHR 0xC3) :: nat) \<longrightarrow> escape_char (CHR 0xC3) = [CHR 0xC3]"
    by (rule conjunct1[OF conjunct2[OF conjunct2[OF here]]])
  then have verbatim: "escape_char (CHR 0xC3) = [CHR 0xC3]"
    by simp
  have dumped: "json_dump (details_json [cafe]) =
       ''['' @ [CHR 0x0A]
       @ ''    {'' @ [CHR 0x0A]
       @ ''        '' @ quoted ''station_name'' @ '': '' @ quoted ''UPS1'' @ '','' @ [CHR 0x0A]
       @ ''        '' @ quoted ''attributes'' @ '': ['' @ [CHR 0x0A]
       @ ''            {'' @ [CHR 0x0A]
       @ ''                '' @ quoted ''attribute_name'' @ '': '' @ quoted ''Name'' @ '',''
       @ [CHR 0x0A]
       @ ''                '' @ quoted ''attribute_value'' @ '': ''
       @ quoted (''Caf'' @ [CHR 0xC3, CHR 0xA9]) @ [CHR 0x0A]
       @ ''            }'' @ [CHR 0x0A]
       @ ''        ]'' @ [CHR 0x0A]
       @ ''    }'' @ [CHR 0x0A]
       @ '']''"
    by (simp add: cafe_def quoted_def json_dump_def details_json_def station_json_def
        entry_json_def encode_basestring_def escape_char_def newline_indent_def
        replicate_numeral_unfold)
  show ?thesis
    using parsed verbatim dumped by (intro conjI)
qed

end
